theory Spec2Isabelle
  imports Main "HOL-Library.AList"
begin

section \<open>The submission handler of tu-backend/app.py\<close>

text \<open>
  A shallow embedding of \<^verbatim>\<open>src/tu-backend/app.py\<close>: the request data, the Python
  helpers the handler relies on, the two remote collaborators (the Drive folder store and
  the sheet), and the functions of the file under their own names.
\<close>

subsection \<open>Request data\<close>

text \<open>
  An uploaded file (werkzeug's \<^verbatim>\<open>FileStorage\<close>) and the two dictionaries the handler
  builds first: \<^verbatim>\<open>fields\<close> (form field name to its string value) and \<^verbatim>\<open>files\<close>
  (file key to the upload). An upload without a filename has the empty filename here: the
  handler only tests the upload's truth value before it reads the name.
\<close>

record file_storage =
  filename :: string
  mimetype :: string
  content :: string

record submission =
  fields_of :: "string \<rightharpoonup> string"
  files_of :: "string \<rightharpoonup> file_storage"

subsection \<open>Python helpers\<close>

text \<open>\<^verbatim>\<open>d.get(k, default)\<close> on a dictionary of strings.\<close>

definition dict_get :: "(string \<rightharpoonup> string) \<Rightarrow> string \<Rightarrow> string \<Rightarrow> string" where
  "dict_get d k dflt = (case d k of None \<Rightarrow> dflt | Some v \<Rightarrow> v)"

text \<open>
  Truth values: \<^verbatim>\<open>d.get(k)\<close> is falsy when the key is absent (\<^verbatim>\<open>None\<close>) and when the
  string is empty; a \<^verbatim>\<open>FileStorage\<close> is falsy when its filename is empty. Where the
  source tests an optional string and then uses it, the model writes the two cases out
  (\<open>None\<close>, and \<open>Some i\<close> with \<open>i\<close> empty or not).
\<close>

definition str_truthy :: "string option \<Rightarrow> bool" where
  "str_truthy v = (case v of None \<Rightarrow> False | Some s \<Rightarrow> s \<noteq> [])"

definition file_truthy :: "file_storage option \<Rightarrow> bool" where
  "file_truthy v = (case v of None \<Rightarrow> False | Some f \<Rightarrow> filename f \<noteq> [])"

text \<open>\<^verbatim>\<open>s.replace(a, b)\<close> for one-character \<^verbatim>\<open>a\<close> and \<^verbatim>\<open>b\<close>, and \<^verbatim>\<open>sep.join(xs)\<close>.\<close>

definition replace_char :: "char \<Rightarrow> char \<Rightarrow> string \<Rightarrow> string" where
  "replace_char a b s = map (\<lambda>c. if c = a then b else c) s"

fun str_join :: "string \<Rightarrow> string list \<Rightarrow> string" where
  "str_join sep [] = []"
| "str_join sep [x] = x"
| "str_join sep (x # y # ys) = x @ sep @ str_join sep (y # ys)"

text \<open>
  \<^verbatim>\<open>os.path.splitext\<close> (posixpath): the extension starts at the last dot of the last path
  component, leading dots of that component not counting; it is empty when there is no
  such dot.
\<close>

definition splitext :: "string \<Rightarrow> string \<times> string" where
  "splitext p =
     (let tail = rev (takeWhile (\<lambda>c. c \<noteq> CHR ''/'') (rev p));
          stem = dropWhile (\<lambda>c. c = CHR ''.'') tail
      in if CHR ''.'' \<in> set stem
         then (let ext = CHR ''.'' # rev (takeWhile (\<lambda>c. c \<noteq> CHR ''.'') (rev stem))
               in (take (length p - length ext) p, ext))
         else (p, []))"

text \<open>
  \<^verbatim>\<open>repr\<close> of a string of letters and digits (every name the handler lists is one), and
  the text of a list of such strings inside an f-string.
\<close>

definition py_repr_str :: "string \<Rightarrow> string" where
  "py_repr_str s = [CHR 0x27] @ s @ [CHR 0x27]"

definition py_repr_list :: "string list \<Rightarrow> string" where
  "py_repr_list xs = ''['' @ str_join '', '' (map py_repr_str xs) @ '']''"

subsection \<open>Configuration\<close>

definition BASE_DRIVE_FOLDER_ID :: string where
  "BASE_DRIVE_FOLDER_ID = ''1uBtsAnQrwPMcb-BcYRfE5m_mNA7nTyyW''"

definition FOLDER_MIME :: string where
  "FOLDER_MIME = ''application/vnd.google-apps.folder''"

subsection \<open>The remote collaborators\<close>

text \<open>
  Modelled from the spec: the folder store and the sheet store of section 6 are remote
  services, reached through \<^verbatim>\<open>googleapiclient\<close>; the file only calls them. The store is
  a list of entries (files and folders), each with an opaque identifier, a name, a MIME
  type, its parent identifiers and a trashed flag; the sheet is a list of rows. Creation
  allocates an identifier that no entry carries (one longer than all of them); deletion
  removes what carries the identifier.

  A listing is asked for with the query text the source builds, and the service reads that
  text. Between the single quotes of a literal it reads a backslash followed by a quote as
  a quote and two backslashes as one backslash, and the first bare quote ends the literal.
  A text that
  reads as \<^verbatim>\<open>name='..' and '..' in parents and trashed=false\<close>, with or without
  \<^verbatim>\<open>and mimeType='..'\<close> after the name, lists the identifiers of the entries with
  that name (that MIME type), that parent, not trashed, in store order. What the service
  answers to any other text is not fixed here: it is \<open>odd_lookup\<close>, a parameter of the
  world.

  Every call of a collaborator (and every use of the local temporary file) is recorded in
  \<open>calls\<close>, and may raise: \<open>faults w n\<close> is the error text of the \<open>n\<close>-th call when it
  fails. \<open>utcnow\<close> is the clock's reading.
\<close>

record entry =
  eid :: string
  ename :: string
  emime :: string
  eparents :: "string list"
  etrashed :: bool
  econtent :: string

datatype call =
    BuildService string
  | FilesList string
  | FilesDelete string
  | FilesCreate string string "string list" string
  | TempSave
  | TempRemove
  | ValuesAppend "string list"

record world =
  entries :: "entry list"
  sheet :: "string list list"
  calls :: "call list"
  faults :: "nat \<Rightarrow> string option"
  utcnow :: string
  odd_lookup :: "string \<Rightarrow> entry list \<Rightarrow> string list"

text \<open>
  A computation either raises (\<open>Inl\<close> the exception's text) or returns a value, and leaves
  the world it reached in both cases.
\<close>

type_synonym 'a io = "world \<Rightarrow> (string + 'a) \<times> world"

definition ret :: "'a \<Rightarrow> 'a io" where
  "ret a w = (Inr a, w)"

definition raise :: "string \<Rightarrow> 'a io" where
  "raise e w = (Inl e, w)"

definition andthen :: "'a io \<Rightarrow> ('a \<Rightarrow> 'b io) \<Rightarrow> 'b io" where
  "andthen m f w = (case m w of (Inl e, w') \<Rightarrow> (Inl e, w') | (Inr a, w') \<Rightarrow> f a w')"

definition effect :: "call \<Rightarrow> (world \<Rightarrow> 'a \<times> world) \<Rightarrow> 'a io" where
  "effect c act w =
     (let w1 = w\<lparr>calls := calls w @ [c]\<rparr>
      in case faults w (length (calls w)) of
           Some e \<Rightarrow> (Inl e, w1)
         | None \<Rightarrow> (case act w1 of (a, w2) \<Rightarrow> (Inr a, w2)))"

definition matches :: "string \<Rightarrow> string option \<Rightarrow> string \<Rightarrow> entry \<Rightarrow> bool" where
  "matches name mime parent e =
     (ename e = name \<and> (case mime of None \<Rightarrow> True | Some m \<Rightarrow> emime e = m)
      \<and> parent \<in> set (eparents e) \<and> \<not> etrashed e)"

definition fresh_id :: "entry list \<Rightarrow> string" where
  "fresh_id es = replicate (Suc (foldr (\<lambda>e n. max (length (eid e)) n) es 0)) CHR ''i''"

text \<open>The service's reading of a query text.\<close>

fun read_literal :: "string \<Rightarrow> (string \<times> string) option" where
  "read_literal [] = None"
| "read_literal (c # cs) =
     (if c = CHR 0x27 then Some ([], cs)
      else if c = CHR 0x5C then
        (case cs of
           [] \<Rightarrow> None
         | d # ds \<Rightarrow>
             if d = CHR 0x27 \<or> d = CHR 0x5C
             then map_option (\<lambda>(l, r). (d # l, r)) (read_literal ds)
             else None)
      else map_option (\<lambda>(l, r). (c # l, r)) (read_literal cs))"

fun strip_prefix :: "string \<Rightarrow> string \<Rightarrow> string option" where
  "strip_prefix [] s = Some s"
| "strip_prefix (c # p) [] = None"
| "strip_prefix (c # p) (d # s) = (if c = d then strip_prefix p s else None)"

definition read_parent ::
  "string \<Rightarrow> string option \<Rightarrow> string \<Rightarrow> (string \<times> string option \<times> string) option" where
  "read_parent name mime q =
     (case strip_prefix ('' and '' @ [CHR 0x27]) q of
        None \<Rightarrow> None
      | Some q1 \<Rightarrow>
          (case read_literal q1 of
             None \<Rightarrow> None
           | Some (parent, q2) \<Rightarrow>
               if q2 = '' in parents and trashed=false'' then Some (name, mime, parent)
               else None))"

definition read_query :: "string \<Rightarrow> (string \<times> string option \<times> string) option" where
  "read_query q =
     (case strip_prefix (''name='' @ [CHR 0x27]) q of
        None \<Rightarrow> None
      | Some q1 \<Rightarrow>
          (case read_literal q1 of
             None \<Rightarrow> None
           | Some (name, q2) \<Rightarrow>
               (case strip_prefix ('' and mimeType='' @ [CHR 0x27]) q2 of
                  None \<Rightarrow> read_parent name None q2
                | Some q3 \<Rightarrow>
                    (case read_literal q3 of
                       None \<Rightarrow> None
                     | Some (mime, q4) \<Rightarrow> read_parent name (Some mime) q4))))"

definition lookup :: "world \<Rightarrow> string \<Rightarrow> string list" where
  "lookup w q =
     (case read_query q of
        Some (name, mime, parent) \<Rightarrow> map eid (filter (matches name mime parent) (entries w))
      | None \<Rightarrow> odd_lookup w q (entries w))"

definition files_list :: "string \<Rightarrow> string list io" where
  "files_list q = effect (FilesList q) (\<lambda>w. (lookup w q, w))"

definition files_delete :: "string \<Rightarrow> unit io" where
  "files_delete fid =
     effect (FilesDelete fid)
       (\<lambda>w. ((), w\<lparr>entries := filter (\<lambda>e. eid e \<noteq> fid) (entries w)\<rparr>))"

definition files_create :: "string \<Rightarrow> string \<Rightarrow> string list \<Rightarrow> string \<Rightarrow> string io" where
  "files_create name mime parents media =
     effect (FilesCreate name mime parents media)
       (\<lambda>w. (fresh_id (entries w),
             w\<lparr>entries := entries w @
                 [\<lparr>eid = fresh_id (entries w), ename = name, emime = mime,
                   eparents = parents, etrashed = False, econtent = media\<rparr>]\<rparr>))"

definition values_append :: "string list \<Rightarrow> unit io" where
  "values_append row = effect (ValuesAppend row) (\<lambda>w. ((), w\<lparr>sheet := sheet w @ [row]\<rparr>))"

definition get_drive_service :: "unit io" where
  "get_drive_service = effect (BuildService ''drive'') (\<lambda>w. ((), w))"

definition get_sheets_service :: "unit io" where
  "get_sheets_service = effect (BuildService ''sheets'') (\<lambda>w. ((), w))"

subsection \<open>The functions of app.py\<close>

definition make_folder_name :: "(string \<rightharpoonup> string) \<Rightarrow> string" where
  "make_folder_name fs =
     replace_char (CHR ''/'') (CHR ''_'')
       (replace_char (CHR '' '') (CHR ''_'')
          (str_join ''_''
             [dict_get fs ''lastName'' ''Unknown'',
              dict_get fs ''firstName'' [],
              dict_get fs ''degreeLevel'' [],
              dict_get fs ''studentType'' []]))"

text \<open>The first identifier of a listing, or \<^verbatim>\<open>None\<close>.\<close>

definition first_id :: "string list \<Rightarrow> string option" where
  "first_id ids = (case ids of [] \<Rightarrow> None | i # _ \<Rightarrow> Some i)"

text \<open>
  The f-string \<^verbatim>\<open>'{s}'\<close>, and the two query texts of the source (lines 44 to 47 and
  65 to 67): the name, the key and the folder identifier are put between the quotes as
  they are.
\<close>

definition sq :: "string \<Rightarrow> string" where
  "sq s = [CHR 0x27] @ s @ [CHR 0x27]"

definition folder_query :: "string \<Rightarrow> string" where
  "folder_query folder_name =
     ''name='' @ sq folder_name @ '' and mimeType='' @ sq FOLDER_MIME @ '' and ''
     @ sq BASE_DRIVE_FOLDER_ID @ '' in parents and trashed=false''"

definition file_query :: "string \<Rightarrow> string \<Rightarrow> string" where
  "file_query folder_id fname =
     ''name='' @ sq fname @ '' and '' @ sq folder_id @ '' in parents and trashed=false''"

definition find_folder :: "string \<Rightarrow> string option io" where
  "find_folder folder_name =
     andthen (files_list (folder_query folder_name)) (\<lambda>ids. ret (first_id ids))"

definition create_folder :: "string \<Rightarrow> string io" where
  "create_folder folder_name = files_create folder_name FOLDER_MIME [BASE_DRIVE_FOLDER_ID] []"

definition find_file_in_folder :: "string \<Rightarrow> string \<Rightarrow> string option io" where
  "find_file_in_folder folder_id fname =
     andthen (files_list (file_query folder_id fname)) (\<lambda>ids. ret (first_id ids))"

definition upload_file_to_drive :: "file_storage \<Rightarrow> string \<Rightarrow> string \<Rightarrow> string io" where
  "upload_file_to_drive fs folder_id drive_filename =
     andthen (find_file_in_folder folder_id drive_filename) (\<lambda>file_id.
     andthen (case file_id of
                None \<Rightarrow> ret ()
              | Some i \<Rightarrow> if i \<noteq> [] then files_delete i else ret ()) (\<lambda>_.
     andthen (effect TempSave (\<lambda>w. ((), w))) (\<lambda>_.
     andthen (files_create drive_filename (mimetype fs) [folder_id] (content fs)) (\<lambda>new_id.
     andthen (effect TempRemove (\<lambda>w. ((), w))) (\<lambda>_.
     ret (''https://drive.google.com/file/d/'' @ new_id @ ''/view?usp=sharing''))))))"

text \<open>The handler, \<^verbatim>\<open>handle_submit\<close>, in the order of its source.\<close>

definition required :: "string list" where
  "required = [''firstName'', ''lastName'', ''studentType'', ''degreeLevel'', ''gender'',
               ''birthDate'', ''personalEmail'', ''nationalCountry'', ''t1Country'',
               ''nationalID'', ''transcript1'']"

definition slots :: "string list" where
  "slots = [''nationalID'', ''transcript1'', ''transcript2'', ''transcript3'', ''transcript4'']"

text \<open>Lines 104 to 106: the list \<^verbatim>\<open>missing\<close>.\<close>

definition missing_fields :: "submission \<Rightarrow> string list" where
  "missing_fields sub =
     filter (\<lambda>k. \<not> (str_truthy (fields_of sub k) \<or> file_truthy (files_of sub k))) required
     @ (if fields_of sub ''termsConditions'' \<noteq> Some ''true'' then [''termsConditions''] else [])"

text \<open>Lines 113 to 115: look the folder up, create it when the lookup gave nothing.\<close>

definition resolve_folder :: "string \<Rightarrow> string io" where
  "resolve_folder folder_name =
     andthen (find_folder folder_name) (\<lambda>folder_id.
       case folder_id of
         None \<Rightarrow> create_folder folder_name
       | Some i \<Rightarrow> if i \<noteq> [] then ret i else create_folder folder_name)"

text \<open>Lines 120 to 129: the name under which the file of slot \<open>k\<close> is stored.\<close>

definition drive_filename_of :: "submission \<Rightarrow> string \<Rightarrow> string \<Rightarrow> file_storage \<Rightarrow> string" where
  "drive_filename_of sub folder_name k fs =
     (let fallback = folder_name @ ''-'' @ k @ snd (splitext (filename fs));
          chosen = (case fields_of sub (k @ ''Filename'') of
                      None \<Rightarrow> fallback
                    | Some v \<Rightarrow> if v \<noteq> [] then v else fallback)
      in if CHR ''.'' \<notin> set chosen then chosen @ snd (splitext (filename fs)) else chosen)"

text \<open>Lines 117 to 132: the loop over the slots, filling the dictionary \<^verbatim>\<open>links\<close>.\<close>

fun upload_slots ::
  "submission \<Rightarrow> string \<Rightarrow> string \<Rightarrow> string list \<Rightarrow> (string \<times> string) list
     \<Rightarrow> (string \<times> string) list io" where
  "upload_slots sub folder_name folder_id [] links = ret links"
| "upload_slots sub folder_name folder_id (k # ks) links =
     (case files_of sub k of
        None \<Rightarrow> upload_slots sub folder_name folder_id ks (AList.update k [] links)
      | Some fs \<Rightarrow>
          if filename fs \<noteq> []
          then andthen (upload_file_to_drive fs folder_id (drive_filename_of sub folder_name k fs))
                 (\<lambda>url. upload_slots sub folder_name folder_id ks (AList.update k url links))
          else upload_slots sub folder_name folder_id ks (AList.update k [] links))"

text \<open>\<^verbatim>\<open>links[k]\<close>: a missing key raises \<^verbatim>\<open>KeyError\<close>, whose text is the key's \<^verbatim>\<open>repr\<close>.\<close>

definition getitem :: "(string \<times> string) list \<Rightarrow> string \<Rightarrow> string io" where
  "getitem d k = (case map_of d k of None \<Rightarrow> raise (py_repr_str k) | Some v \<Rightarrow> ret v)"

text \<open>Lines 135 to 154: the row and its append.\<close>

definition write_row :: "submission \<Rightarrow> (string \<times> string) list \<Rightarrow> unit io" where
  "write_row sub links =
     andthen get_sheets_service (\<lambda>_.
     andthen (getitem links ''nationalID'') (\<lambda>l0.
     andthen (getitem links ''transcript1'') (\<lambda>l1.
     andthen (getitem links ''transcript2'') (\<lambda>l2.
     andthen (getitem links ''transcript3'') (\<lambda>l3.
     andthen (getitem links ''transcript4'') (\<lambda>l4.
       (\<lambda>w. values_append
          [dict_get (fields_of sub) ''firstName'' [], dict_get (fields_of sub) ''middleName'' [],
           dict_get (fields_of sub) ''lastName'' [], dict_get (fields_of sub) ''additionalName'' [],
           dict_get (fields_of sub) ''studentType'' [], dict_get (fields_of sub) ''degreeLevel'' [],
           dict_get (fields_of sub) ''gender'' [], dict_get (fields_of sub) ''birthDate'' [],
           dict_get (fields_of sub) ''personalEmail'' [], dict_get (fields_of sub) ''notes'' [],
           l0, dict_get (fields_of sub) ''nationalCountry'' [],
           l1, dict_get (fields_of sub) ''t1Country'' [],
           l2, dict_get (fields_of sub) ''t2Country'' [],
           l3, dict_get (fields_of sub) ''t3Country'' [],
           l4, dict_get (fields_of sub) ''t4Country'' [],
           dict_get (fields_of sub) ''termsConditions'' [],
           utcnow w] w)))))))"

text \<open>Lines 111 to 155: what runs once validation has passed.\<close>

definition submit_body :: "submission \<Rightarrow> (string \<times> string) list io" where
  "submit_body sub =
     andthen get_drive_service (\<lambda>_.
     andthen (resolve_folder (make_folder_name (fields_of sub))) (\<lambda>folder_id.
     andthen (upload_slots sub (make_folder_name (fields_of sub)) folder_id slots []) (\<lambda>links.
     andthen (write_row sub links) (\<lambda>_. ret links))))"

datatype payload = Success "(string \<times> string) list" | Failure string

record response =
  status :: nat
  body :: payload

definition handle_submit :: "submission \<Rightarrow> world \<Rightarrow> response \<times> world" where
  "handle_submit sub w =
     (if missing_fields sub \<noteq> []
      then (\<lparr>status = 400,
             body = Failure (''Missing required fields: '' @ py_repr_list (missing_fields sub))\<rparr>, w)
      else (case submit_body sub w of
              (Inl e, w') \<Rightarrow> (\<lparr>status = 500, body = Failure e\<rparr>, w')
            | (Inr links, w') \<Rightarrow> (\<lparr>status = 200, body = Success links\<rparr>, w')))"

subsection \<open>Notions the statements use\<close>

text \<open>
  The four identity fields as \<^verbatim>\<open>make_folder_name\<close> reads them (with its defaults), the
  normalisation of one field (every space and every slash becomes an underscore), and
  the fields in which no underscore can arise.
\<close>

definition identity_fields :: "(string \<rightharpoonup> string) \<Rightarrow> string list" where
  "identity_fields fs =
     [dict_get fs ''lastName'' ''Unknown'', dict_get fs ''firstName'' [],
      dict_get fs ''degreeLevel'' [], dict_get fs ''studentType'' []]"

definition norm_field :: "string \<Rightarrow> string" where
  "norm_field s = replace_char (CHR ''/'') (CHR ''_'') (replace_char (CHR '' '') (CHR ''_'') s)"

definition separator_free :: "string \<Rightarrow> bool" where
  "separator_free s = (CHR ''_'' \<notin> set s \<and> CHR '' '' \<notin> set s \<and> CHR ''/'' \<notin> set s)"

text \<open>
  The calls a run from \<open>w\<close> to \<open>w'\<close> added, what one call that went through does to
  the store and to the sheet, and the calls of a run that went through: all of them when
  the run returned, all but the last when it raised.
\<close>

definition new_calls :: "world \<Rightarrow> world \<Rightarrow> call list" where
  "new_calls w w' = drop (length (calls w)) (calls w')"

definition store_effect :: "call \<Rightarrow> entry list \<Rightarrow> entry list" where
  "store_effect c es =
     (case c of
        FilesDelete i \<Rightarrow> filter (\<lambda>e. eid e \<noteq> i) es
      | FilesCreate name mime parents media \<Rightarrow>
          es @ [\<lparr>eid = fresh_id es, ename = name, emime = mime, eparents = parents,
                 etrashed = False, econtent = media\<rparr>]
      | _ \<Rightarrow> es)"

definition sheet_effect :: "call \<Rightarrow> string list list \<Rightarrow> string list list" where
  "sheet_effect c rows = (case c of ValuesAppend row \<Rightarrow> rows @ [row] | _ \<Rightarrow> rows)"

definition completed :: "(string + 'a) \<Rightarrow> call list \<Rightarrow> call list" where
  "completed r cs = (case r of Inl _ \<Rightarrow> butlast cs | Inr _ \<Rightarrow> cs)"

text \<open>
  A run from \<open>w\<close> to \<open>w'\<close> with result \<open>r\<close> is traced when it leaves the fault
  schedule and the clock alone, only adds calls, and fails exactly when its last call
  does: every call before the last went through, an error is the text of the fault of
  the last call made, and the store and the sheet it leaves are those of \<open>w\<close> after the
  calls that went through, in their order.
\<close>

definition clean_until :: "world \<Rightarrow> nat \<Rightarrow> bool" where
  "clean_until w n = list_all (\<lambda>i. faults w i = None) [length (calls w) ..< n]"

definition traced :: "world \<Rightarrow> (string + 'a) \<Rightarrow> world \<Rightarrow> bool" where
  "traced w r w' =
     (faults w' = faults w \<and> utcnow w' = utcnow w
      \<and> length (calls w) \<le> length (calls w') \<and> take (length (calls w)) (calls w') = calls w
      \<and> (case r of
            Inr _ \<Rightarrow> clean_until w (length (calls w'))
          | Inl e \<Rightarrow> length (calls w) < length (calls w')
                     \<and> clean_until w (length (calls w') - 1)
                     \<and> faults w (length (calls w') - 1) = Some e)
      \<and> entries w' = foldl (\<lambda>es c. store_effect c es) (entries w) (completed r (new_calls w w'))
      \<and> sheet w' = foldl (\<lambda>rs c. sheet_effect c rs) (sheet w) (completed r (new_calls w w')))"

text \<open>
  A text is plain when it holds no single quote and no backslash: between the quotes of a
  query the service reads such a text as it is.
\<close>

definition plain :: "string \<Rightarrow> bool" where
  "plain s = (CHR 0x27 \<notin> set s \<and> CHR 0x5C \<notin> set s)"


definition folder_ids :: "entry list \<Rightarrow> string \<Rightarrow> string list" where
  "folder_ids es key = map eid (filter (matches key (Some FOLDER_MIME) BASE_DRIVE_FOLDER_ID) es)"








text \<open>
  The missing fields in the words of the specification: a required field is missing when
  it is present neither as a form field nor as a file slot, and termsConditions when it is
  not literally \<^verbatim>\<open>true\<close>.
\<close>

definition spec_missing :: "submission \<Rightarrow> string list" where
  "spec_missing sub =
     filter (\<lambda>k. fields_of sub k = None \<and> files_of sub k = None) required
     @ (if fields_of sub ''termsConditions'' \<noteq> Some ''true'' then [''termsConditions''] else [])"

subsection \<open>Example requests\<close>

text \<open>
  A complete submission with two uploads, an empty store with no fault, and what the
  handler answers and leaves there.
\<close>

definition sub_ok :: submission where
  "sub_ok = \<lparr>fields_of = map_of
      [(''firstName'', ''Denise''), (''lastName'', ''Nelson''), (''studentType'', ''MSOHQ''),
       (''degreeLevel'', ''MBA''), (''gender'', ''F''), (''birthDate'', ''1990-01-01''),
       (''personalEmail'', ''d@example.org''), (''nationalCountry'', ''US''),
       (''t1Country'', ''US''), (''termsConditions'', ''true'')],
     files_of = map_of
      [(''nationalID'', \<lparr>filename = ''id.pdf'', mimetype = ''application/pdf'', content = ''ID''\<rparr>),
       (''transcript1'', \<lparr>filename = ''t1.png'', mimetype = ''image/png'', content = ''T1''\<rparr>)]\<rparr>"

definition w0 :: world where
  "w0 = \<lparr>entries = [], sheet = [], calls = [], faults = (\<lambda>_. None),
          utcnow = ''2025-01-01T00:00:00'', odd_lookup = (\<lambda>_ _. [])\<rparr>"

definition r_ok :: response where
  "r_ok = \<lparr>status = 200,
           body = Success
             [(''nationalID'', ''https://drive.google.com/file/d/ii/view?usp=sharing''),
              (''transcript1'', ''https://drive.google.com/file/d/iii/view?usp=sharing''),
              (''transcript2'', []), (''transcript3'', []), (''transcript4'', [])]\<rparr>"

definition row_ok :: "string list" where
  "row_ok = [''Denise'', [], ''Nelson'', [], ''MSOHQ'', ''MBA'', ''F'', ''1990-01-01'',
             ''d@example.org'', [],
             ''https://drive.google.com/file/d/ii/view?usp=sharing'', ''US'',
             ''https://drive.google.com/file/d/iii/view?usp=sharing'', ''US'',
             [], [], [], [], [], [], ''true'', ''2025-01-01T00:00:00'']"

definition entries_ok :: "entry list" where
  "entries_ok =
     [\<lparr>eid = ''i'', ename = ''Nelson_Denise_MBA_MSOHQ'', emime = FOLDER_MIME,
       eparents = [BASE_DRIVE_FOLDER_ID], etrashed = False, econtent = []\<rparr>,
      \<lparr>eid = ''ii'', ename = ''Nelson_Denise_MBA_MSOHQ-nationalID.pdf'',
       emime = ''application/pdf'', eparents = [''i''], etrashed = False, econtent = ''ID''\<rparr>,
      \<lparr>eid = ''iii'', ename = ''Nelson_Denise_MBA_MSOHQ-transcript1.png'',
       emime = ''image/png'', eparents = [''i''], etrashed = False, econtent = ''T1''\<rparr>]"

definition calls_ok :: "call list" where
  "calls_ok =
     [BuildService ''drive'',
      FilesList (folder_query ''Nelson_Denise_MBA_MSOHQ''),
      FilesCreate ''Nelson_Denise_MBA_MSOHQ'' FOLDER_MIME [BASE_DRIVE_FOLDER_ID] [],
      FilesList (file_query ''i'' ''Nelson_Denise_MBA_MSOHQ-nationalID.pdf''),
      TempSave,
      FilesCreate ''Nelson_Denise_MBA_MSOHQ-nationalID.pdf'' ''application/pdf'' [''i''] ''ID'',
      TempRemove,
      FilesList (file_query ''i'' ''Nelson_Denise_MBA_MSOHQ-transcript1.png''),
      TempSave,
      FilesCreate ''Nelson_Denise_MBA_MSOHQ-transcript1.png'' ''image/png'' [''i''] ''T1'',
      TempRemove,
      BuildService ''sheets'',
      ValuesAppend row_ok]"

definition w_ok :: world where
  "w_ok = \<lparr>entries = entries_ok, sheet = [row_ok], calls = calls_ok, faults = (\<lambda>_. None),
           utcnow = ''2025-01-01T00:00:00'', odd_lookup = (\<lambda>_ _. [])\<rparr>"

text \<open>
  The same submission with an empty first name and no last name, and with an empty first
  name only.
\<close>

definition sub_blank :: submission where
  "sub_blank = sub_ok\<lparr>fields_of := (fields_of sub_ok)(''firstName'' \<mapsto> [], ''lastName'' := None)\<rparr>"

definition sub_blank_first :: submission where
  "sub_blank_first = sub_ok\<lparr>fields_of := (fields_of sub_ok)(''firstName'' \<mapsto> [])\<rparr>"

text \<open>
  The store rejects the sixth call (the creation of the first uploaded file): what the
  handler answers to the complete submission then, and what it leaves.
\<close>

definition w_fail :: world where
  "w_fail = \<lparr>entries = [], sheet = [], calls = [],
             faults = (\<lambda>n. if n = 5 then Some ''storageQuotaExceeded'' else None),
             utcnow = ''2025-01-01T00:00:00'', odd_lookup = (\<lambda>_ _. [])\<rparr>"

definition r_fail :: response where
  "r_fail = \<lparr>status = 500, body = Failure ''storageQuotaExceeded''\<rparr>"

definition w_failed :: world where
  "w_failed = \<lparr>entries =
               [\<lparr>eid = ''i'', ename = ''Nelson_Denise_MBA_MSOHQ'', emime = FOLDER_MIME,
                 eparents = [BASE_DRIVE_FOLDER_ID], etrashed = False, econtent = []\<rparr>],
             sheet = [],
             calls =
               [BuildService ''drive'',
                FilesList (folder_query ''Nelson_Denise_MBA_MSOHQ''),
                FilesCreate ''Nelson_Denise_MBA_MSOHQ'' FOLDER_MIME [BASE_DRIVE_FOLDER_ID] [],
                FilesList (file_query ''i'' ''Nelson_Denise_MBA_MSOHQ-nationalID.pdf''),
                TempSave,
                FilesCreate ''Nelson_Denise_MBA_MSOHQ-nationalID.pdf'' ''application/pdf''
                  [''i''] ''ID''],
             faults = (\<lambda>n. if n = 5 then Some ''storageQuotaExceeded'' else None),
             utcnow = ''2025-01-01T00:00:00'', odd_lookup = (\<lambda>_ _. [])\<rparr>"

text \<open>
  The complete submission with the field transcript1Filename present and empty.
\<close>

definition sub_noname :: submission where
  "sub_noname = sub_ok\<lparr>fields_of := (fields_of sub_ok)(''transcript1Filename'' \<mapsto> [])\<rparr>"






definition sub_qkey :: submission where
  "sub_qkey = sub_ok\<lparr>fields_of :=
     (fields_of sub_ok)(''lastName'' \<mapsto> ''a'' @ [CHR 0x5C, CHR 0x27] @ ''b'')\<rparr>"

definition key_q :: string where
  "key_q = ''a'' @ [CHR 0x5C, CHR 0x27] @ ''b_Denise_MBA_MSOHQ''"

definition entries_q :: "entry list" where
  "entries_q =
     [\<lparr>eid = ''i'', ename = key_q, emime = FOLDER_MIME,
       eparents = [BASE_DRIVE_FOLDER_ID], etrashed = False, econtent = []\<rparr>,
      \<lparr>eid = ''ii'', ename = key_q @ ''-nationalID.pdf'',
       emime = ''application/pdf'', eparents = [''i''], etrashed = False, econtent = ''ID''\<rparr>,
      \<lparr>eid = ''iii'', ename = key_q @ ''-transcript1.png'',
       emime = ''image/png'', eparents = [''i''], etrashed = False, econtent = ''T1''\<rparr>]"

section \<open>Properties\<close>

subsection \<open>The folder key\<close>

lemma norm_field_append: "norm_field (a @ b) = norm_field a @ norm_field b"
  by (simp add: norm_field_def replace_char_def)

lemma norm_field_Cons:
  "norm_field (c # s) = (if c = CHR '' '' \<or> c = CHR ''/'' then CHR ''_'' else c) # norm_field s"
  by (simp add: norm_field_def replace_char_def)

lemma norm_field_Nil: "norm_field [] = []"
  by (simp add: norm_field_def replace_char_def)

lemma norm_field_map:
  "norm_field s = map (\<lambda>c. if c = CHR '' '' \<or> c = CHR ''/'' then CHR ''_'' else c) s"
  by (induction s) (simp_all add: norm_field_Cons norm_field_Nil)

lemma norm_field_free: "separator_free s \<Longrightarrow> norm_field s = s"
  by (induction s) (auto simp: norm_field_Cons norm_field_Nil separator_free_def)

lemma norm_field_clean: "CHR '' '' \<notin> set (norm_field s) \<and> CHR ''/'' \<notin> set (norm_field s)"
  by (induction s) (auto simp: norm_field_Cons norm_field_Nil)

lemma make_folder_name_join:
  "make_folder_name fs = str_join ''_'' (map norm_field (identity_fields fs))"
  by (simp add: make_folder_name_def identity_fields_def norm_field_append norm_field_Cons
      norm_field_Nil flip: norm_field_def)

lemma make_folder_name_clean:
  "CHR '' '' \<notin> set (make_folder_name fs) \<and> CHR ''/'' \<notin> set (make_folder_name fs)"
  by (simp add: make_folder_name_join identity_fields_def norm_field_clean)

lemma split_at_sep:
  assumes "x \<notin> set a" "x \<notin> set a'" "a @ x # r = a' @ x # r'"
  shows "a = a' \<and> r = r'"
proof -
  have tw: "takeWhile (\<lambda>c. c \<noteq> x) (b @ x # s) = b" if "x \<notin> set b" for b s
    using that by (induction b) auto
  have "a = takeWhile (\<lambda>c. c \<noteq> x) (a @ x # r)" using assms(1) by (simp add: tw)
  also have "\<dots> = takeWhile (\<lambda>c. c \<noteq> x) (a' @ x # r')" using assms(3) by simp
  also have "\<dots> = a'" using assms(2) by (simp add: tw)
  finally have "a = a'" .
  with assms(3) show ?thesis by simp
qed

lemma key_injective:
  assumes "list_all separator_free (take 3 (identity_fields fs))"
    and "list_all separator_free (take 3 (identity_fields fs'))"
    and "make_folder_name fs = make_folder_name fs'"
  shows "map norm_field (identity_fields fs) = map norm_field (identity_fields fs')"
proof -
  define l f d s where "l = dict_get fs ''lastName'' ''Unknown''"
    and "f = dict_get fs ''firstName'' []"
    and "d = dict_get fs ''degreeLevel'' []" and "s = dict_get fs ''studentType'' []"
  define l' f' d' s' where "l' = dict_get fs' ''lastName'' ''Unknown''"
    and "f' = dict_get fs' ''firstName'' []"
    and "d' = dict_get fs' ''degreeLevel'' []" and "s' = dict_get fs' ''studentType'' []"
  note defs = l_def f_def d_def s_def l'_def f'_def d'_def s'_def
  have idf: "identity_fields fs = [l, f, d, s]" "identity_fields fs' = [l', f', d', s']"
    by (simp_all add: identity_fields_def defs)
  have free: "separator_free l" "separator_free f" "separator_free d"
    "separator_free l'" "separator_free f'" "separator_free d'"
    using assms(1,2) by (simp_all add: idf)
  have us: "CHR ''_'' \<notin> set l" "CHR ''_'' \<notin> set f" "CHR ''_'' \<notin> set d"
    "CHR ''_'' \<notin> set l'" "CHR ''_'' \<notin> set f'" "CHR ''_'' \<notin> set d'"
    using free by (simp_all add: separator_free_def)
  have "l @ CHR ''_'' # (f @ CHR ''_'' # (d @ CHR ''_'' # norm_field s))
      = l' @ CHR ''_'' # (f' @ CHR ''_'' # (d' @ CHR ''_'' # norm_field s'))"
    using assms(3) free by (simp add: make_folder_name_join idf norm_field_free)
  from split_at_sep [OF us(1) us(4) this]
  have 1: "l = l'"
    and r1: "f @ CHR ''_'' # (d @ CHR ''_'' # norm_field s)
           = f' @ CHR ''_'' # (d' @ CHR ''_'' # norm_field s')"
    by simp_all
  from split_at_sep [OF us(2) us(5) r1]
  have 2: "f = f'" and r2: "d @ CHR ''_'' # norm_field s = d' @ CHR ''_'' # norm_field s'"
    by simp_all
  from split_at_sep [OF us(3) us(6) r2]
  have 3: "d = d'" and 4: "norm_field s = norm_field s'"
    by simp_all
  show ?thesis by (simp add: idf 1 2 3 4)
qed

text \<open>
  C3, as the code has it. The key is the four identity fields, each with its spaces and
  slashes turned into underscores, joined by underscores in the order lastName, firstName,
  degreeLevel, studentType; it holds no space and no slash; the example of the source's
  comment comes out as written. The key determines the normalised fields only among
  submissions whose lastName, firstName and degreeLevel hold no underscore, space or
  slash: an underscore inside a field cannot be told from the joining one.
\<close>

theorem make_folder_name_key:
  "make_folder_name fs = str_join ''_'' (map norm_field (identity_fields fs))
   \<and> norm_field s = map (\<lambda>c. if c = CHR '' '' \<or> c = CHR ''/'' then CHR ''_'' else c) s
   \<and> CHR '' '' \<notin> set (make_folder_name fs) \<and> CHR ''/'' \<notin> set (make_folder_name fs)
   \<and> make_folder_name
        (map_of [(''lastName'', ''Nelson''), (''firstName'', ''Denise''),
                 (''degreeLevel'', ''MBA''), (''studentType'', ''MSOHQ'')])
       = ''Nelson_Denise_MBA_MSOHQ''
   \<and> (list_all separator_free (take 3 (identity_fields fs))
        \<and> list_all separator_free (take 3 (identity_fields fs'))
        \<and> make_folder_name fs = make_folder_name fs'
      \<longrightarrow> map norm_field (identity_fields fs) = map norm_field (identity_fields fs'))"
proof -
  have ex: "make_folder_name
        (map_of [(''lastName'', ''Nelson''), (''firstName'', ''Denise''),
                 (''degreeLevel'', ''MBA''), (''studentType'', ''MSOHQ'')])
       = ''Nelson_Denise_MBA_MSOHQ''"
    by (simp add: make_folder_name_def dict_get_def replace_char_def)
  show ?thesis
    using make_folder_name_join [of fs] norm_field_map [of s] make_folder_name_clean [of fs]
      ex key_injective [of fs fs']
    by blast
qed

text \<open>
  A witness: two submissions that differ only in a slash against a space of the student
  type have the same key, and the same normalised fields.
\<close>

theorem make_folder_name_key_witness:
  "list_all separator_free
     (take 3 (identity_fields (map_of [(''lastName'', ''Nelson''), (''firstName'', ''Denise''),
                 (''degreeLevel'', ''MBA''), (''studentType'', ''MS OHQ'')])))
   \<and> make_folder_name (map_of [(''lastName'', ''Nelson''), (''firstName'', ''Denise''),
                 (''degreeLevel'', ''MBA''), (''studentType'', ''MS OHQ'')])
     = make_folder_name (map_of [(''lastName'', ''Nelson''), (''firstName'', ''Denise''),
                 (''degreeLevel'', ''MBA''), (''studentType'', ''MS/OHQ'')])
   \<and> map norm_field (identity_fields (map_of [(''lastName'', ''Nelson''),
                 (''firstName'', ''Denise''), (''degreeLevel'', ''MBA''),
                 (''studentType'', ''MS OHQ'')]))
     = map norm_field (identity_fields (map_of [(''lastName'', ''Nelson''),
                 (''firstName'', ''Denise''), (''degreeLevel'', ''MBA''),
                 (''studentType'', ''MS/OHQ'')]))
   \<and> make_folder_name (map_of [(''lastName'', ''Nelson''), (''firstName'', ''Denise''),
                 (''degreeLevel'', ''MBA''), (''studentType'', ''MS OHQ'')])
     = ''Nelson_Denise_MBA_MS_OHQ''"
  using make_folder_name_key
    [of "map_of [(''lastName'', ''Nelson''), (''firstName'', ''Denise''),
                 (''degreeLevel'', ''MBA''), (''studentType'', ''MS OHQ'')]"
        "[]"
        "map_of [(''lastName'', ''Nelson''), (''firstName'', ''Denise''),
                 (''degreeLevel'', ''MBA''), (''studentType'', ''MS/OHQ'')]"]
  by (simp add: identity_fields_def dict_get_def separator_free_def make_folder_name_def
      replace_char_def norm_field_def)

text \<open>
  The key is not injective up to normalisation: a space in the last name and a space in
  the first name give the same key for different normalised fields.
\<close>

theorem make_folder_name_not_injective:
  "make_folder_name (map_of [(''lastName'', ''Van Der''), (''firstName'', ''Berg''),
                 (''degreeLevel'', ''MBA''), (''studentType'', ''MSOHQ'')])
     = make_folder_name (map_of [(''lastName'', ''Van''), (''firstName'', ''Der Berg''),
                 (''degreeLevel'', ''MBA''), (''studentType'', ''MSOHQ'')])
   \<and> map norm_field (identity_fields (map_of [(''lastName'', ''Van Der''),
                 (''firstName'', ''Berg''), (''degreeLevel'', ''MBA''),
                 (''studentType'', ''MSOHQ'')]))
     \<noteq> map norm_field (identity_fields (map_of [(''lastName'', ''Van''),
                 (''firstName'', ''Der Berg''), (''degreeLevel'', ''MBA''),
                 (''studentType'', ''MSOHQ'')]))"
  by (simp add: identity_fields_def dict_get_def make_folder_name_def replace_char_def
      norm_field_def)
subsection \<open>Computations: results, traces and what is left alone\<close>

lemma andthen_Inr_iff:
  "andthen m f w = (Inr b, w2) \<longleftrightarrow> (\<exists>a w1. m w = (Inr a, w1) \<and> f a w1 = (Inr b, w2))"
  by (auto simp: andthen_def split: prod.splits sum.splits)


lemma effect_Inr_iff:
  "effect c act w = (Inr a, w2) \<longleftrightarrow>
     faults w (length (calls w)) = None \<and> act (w\<lparr>calls := calls w @ [c]\<rparr>) = (a, w2)"
  by (auto simp: effect_def Let_def split: option.splits prod.splits)


lemma ret_iff: "ret a w = (r, w2) \<longleftrightarrow> r = Inr a \<and> w2 = w"
  by (auto simp: ret_def)

lemma raise_iff: "raise e w = (r, w2) \<longleftrightarrow> r = Inl e \<and> w2 = w"
  by (auto simp: raise_def)


lemma clean_until_iff: "clean_until w n \<longleftrightarrow> (\<forall>i. length (calls w) \<le> i \<and> i < n \<longrightarrow> faults w i = None)"
  by (auto simp: clean_until_def list_all_iff)

lemma store_effect_simps:
  "store_effect (FilesDelete i) es = filter (\<lambda>e. eid e \<noteq> i) es"
  "store_effect (FilesCreate n m ps media) es =
     es @ [\<lparr>eid = fresh_id es, ename = n, emime = m, eparents = ps, etrashed = False,
            econtent = media\<rparr>]"
  "store_effect (BuildService x) es = es"
  "store_effect (FilesList q) es = es"
  "store_effect TempSave es = es"
  "store_effect TempRemove es = es"
  "store_effect (ValuesAppend row) es = es"
  by (simp_all add: store_effect_def)

lemma sheet_effect_simps:
  "sheet_effect (ValuesAppend row) rows = rows @ [row]"
  "sheet_effect (FilesDelete i) rows = rows"
  "sheet_effect (FilesCreate n m ps media) rows = rows"
  "sheet_effect (BuildService x) rows = rows"
  "sheet_effect (FilesList q) rows = rows"
  "sheet_effect TempSave rows = rows"
  "sheet_effect TempRemove rows = rows"
  by (simp_all add: sheet_effect_def)

lemma traced_ret: "traced w (Inr a) w"
  by (auto simp: traced_def clean_until_iff new_calls_def completed_def)

lemma traced_effect:
  assumes "\<And>w. faults (snd (act w)) = faults w \<and> utcnow (snd (act w)) = utcnow w
              \<and> calls (snd (act w)) = calls w
              \<and> entries (snd (act w)) = store_effect c (entries w)
              \<and> sheet (snd (act w)) = sheet_effect c (sheet w)"
    and "effect c act w = (r, w')"
  shows "traced w r w'"
proof (cases "faults w (length (calls w))")
  case None
  with assms(2) assms(1) [of "w\<lparr>calls := calls w @ [c]\<rparr>"] show ?thesis
    by (auto simp: effect_def Let_def traced_def clean_until_iff less_Suc_eq_le new_calls_def
        completed_def split: prod.splits)
next
  case (Some e)
  with assms(2) show ?thesis
    by (auto simp: effect_def Let_def traced_def clean_until_iff new_calls_def completed_def)
qed

lemma traced_calls: "traced w r w' \<Longrightarrow> calls w' = calls w @ new_calls w w'"
  by (metis append_take_drop_id new_calls_def traced_def)

lemma traced_trans:
  assumes "traced w (Inr a) w1" and "traced w1 r w2"
  shows "traced w r w2"
proof -
  from assms have f: "faults w1 = faults w" "faults w2 = faults w" "utcnow w2 = utcnow w"
    and le: "length (calls w) \<le> length (calls w1)" "length (calls w1) \<le> length (calls w2)"
    and c1: "clean_until w (length (calls w1))"
    and e1: "entries w1 = foldl (\<lambda>es c. store_effect c es) (entries w) (new_calls w w1)"
    and s1: "sheet w1 = foldl (\<lambda>rs c. sheet_effect c rs) (sheet w) (new_calls w w1)"
    and e2: "entries w2 = foldl (\<lambda>es c. store_effect c es) (entries w1)
                            (completed r (new_calls w1 w2))"
    and s2: "sheet w2 = foldl (\<lambda>rs c. sheet_effect c rs) (sheet w1)
                            (completed r (new_calls w1 w2))"
    by (simp_all add: traced_def completed_def)
  have cs: "calls w2 = calls w @ (new_calls w w1 @ new_calls w1 w2)"
    using traced_calls [OF assms(1)] traced_calls [OF assms(2)] by simp
  then have nc: "new_calls w w2 = new_calls w w1 @ new_calls w1 w2"
    by (simp add: new_calls_def [of w w2])
  have tk2: "take (length (calls w)) (calls w2) = calls w"
    using cs by simp
  show ?thesis
  proof (cases r)
    case (Inr b)
    with assms(2) have "clean_until w1 (length (calls w2))" by (simp add: traced_def)
    with c1 f have "clean_until w (length (calls w2))"
      by (auto simp: clean_until_iff) (metis not_le_imp_less)
    with Inr f le tk2 e1 s1 e2 s2 nc show ?thesis by (simp add: traced_def completed_def)
  next
    case (Inl e)
    with assms(2) have lt: "length (calls w1) < length (calls w2)"
      and c2: "clean_until w1 (length (calls w2) - 1)"
      and fe: "faults w1 (length (calls w2) - 1) = Some e"
      by (simp_all add: traced_def)
    from c1 c2 f have cl: "clean_until w (length (calls w2) - 1)"
      by (auto simp: clean_until_iff) (metis not_le_imp_less)
    from lt have "new_calls w1 w2 \<noteq> []" by (simp add: new_calls_def)
    then have bl: "butlast (new_calls w w1 @ new_calls w1 w2)
                 = new_calls w w1 @ butlast (new_calls w1 w2)"
      by (simp add: butlast_append)
    from Inl f le lt fe tk2 cl e1 s1 e2 s2 nc bl show ?thesis
      by (simp add: traced_def completed_def)
  qed
qed

lemma traced_andthen:
  assumes "\<And>w r w'. m w = (r, w') \<Longrightarrow> traced w r w'"
    and "\<And>a w r w'. f a w = (r, w') \<Longrightarrow> traced w r w'"
    and "andthen m f w = (r, w')"
  shows "traced w r w'"
proof (cases "m w")
  case (Pair r1 w1)
  show ?thesis
  proof (cases r1)
    case (Inl e)
    with Pair assms(3) have "r = Inl e" "w' = w1" by (simp_all add: andthen_def)
    with Pair Inl assms(1) [of w "Inl e" w1] show ?thesis
      by (simp add: traced_def completed_def)
  next
    case (Inr a)
    with Pair assms(3) have "f a w1 = (r, w')" by (simp add: andthen_def)
    from traced_trans [OF assms(1) [OF Pair [unfolded Inr]] assms(2) [OF this]]
    show ?thesis .
  qed
qed

lemma traced_files_list: "files_list q w = (r, w') \<Longrightarrow> traced w r w'"
  unfolding files_list_def
  by (erule traced_effect [rotated]) (simp add: store_effect_simps sheet_effect_simps)

lemma traced_files_delete: "files_delete i w = (r, w') \<Longrightarrow> traced w r w'"
  unfolding files_delete_def
  by (erule traced_effect [rotated]) (simp add: store_effect_simps sheet_effect_simps)

lemma traced_files_create: "files_create n m ps c w = (r, w') \<Longrightarrow> traced w r w'"
  unfolding files_create_def
  by (erule traced_effect [rotated]) (simp add: store_effect_simps sheet_effect_simps)

lemma traced_values_append: "values_append row w = (r, w') \<Longrightarrow> traced w r w'"
  unfolding values_append_def
  by (erule traced_effect [rotated]) (simp add: store_effect_simps sheet_effect_simps)

lemma traced_get_drive_service: "get_drive_service w = (r, w') \<Longrightarrow> traced w r w'"
  unfolding get_drive_service_def
  by (erule traced_effect [rotated]) (simp add: store_effect_simps sheet_effect_simps)

lemma traced_get_sheets_service: "get_sheets_service w = (r, w') \<Longrightarrow> traced w r w'"
  unfolding get_sheets_service_def
  by (erule traced_effect [rotated]) (simp add: store_effect_simps sheet_effect_simps)

lemma traced_temp:
  "c = TempSave \<or> c = TempRemove \<Longrightarrow> effect c (\<lambda>w. ((), w)) w = (r, w') \<Longrightarrow> traced w r w'"
  by (erule traced_effect [rotated]) (auto simp: store_effect_simps sheet_effect_simps)

lemma traced_ret': "ret a w = (r, w') \<Longrightarrow> traced w r w'"
  by (auto simp: ret_def traced_ret)

lemma traced_find_folder: "find_folder n w = (r, w') \<Longrightarrow> traced w r w'"
  unfolding find_folder_def
  by (erule traced_andthen [rotated 2]) (auto intro: traced_files_list traced_ret')

lemma traced_create_folder: "create_folder n w = (r, w') \<Longrightarrow> traced w r w'"
  unfolding create_folder_def by (rule traced_files_create)

lemma traced_find_file_in_folder: "find_file_in_folder i n w = (r, w') \<Longrightarrow> traced w r w'"
  unfolding find_file_in_folder_def
  by (erule traced_andthen [rotated 2]) (auto intro: traced_files_list traced_ret')

lemma traced_resolve_folder: "resolve_folder n w = (r, w') \<Longrightarrow> traced w r w'"
  unfolding resolve_folder_def
  by (erule traced_andthen [rotated 2])
     (auto intro: traced_find_folder traced_create_folder traced_ret' split: option.splits if_splits)

lemma traced_upload_file_to_drive: "upload_file_to_drive fs i n w = (r, w') \<Longrightarrow> traced w r w'"
  unfolding upload_file_to_drive_def
  apply (erule traced_andthen [rotated 2])
   apply (erule traced_find_file_in_folder)
  apply (erule traced_andthen [rotated 2])
   apply (auto intro: traced_files_delete traced_ret' split: option.splits if_splits)[1]
  apply (erule traced_andthen [rotated 2])
   apply (erule traced_temp [rotated], simp)
  apply (erule traced_andthen [rotated 2])
   apply (erule traced_files_create)
  apply (erule traced_andthen [rotated 2])
   apply (erule traced_temp [rotated], simp)
  apply (erule traced_ret')
  done

lemma traced_upload_slots:
  "upload_slots sub fn fid ks links w = (r, w') \<Longrightarrow> traced w r w'"
proof (induction ks arbitrary: links w r w')
  case Nil
  then show ?case by (simp add: traced_ret')
next
  case (Cons k ks)
  show ?case
  proof (cases "files_of sub k")
    case None
    with Cons show ?thesis by simp
  next
    case (Some fs)
    show ?thesis
    proof (cases "filename fs = []")
      case True
      with Some Cons show ?thesis by simp
    next
      case False
      with Some Cons.prems
      have "andthen (upload_file_to_drive fs fid (drive_filename_of sub fn k fs))
              (\<lambda>url. upload_slots sub fn fid ks (AList.update k url links)) w = (r, w')"
        by simp
      then show ?thesis
        by (rule traced_andthen [rotated 2]) (auto intro: traced_upload_file_to_drive Cons.IH)
    qed
  qed
qed

lemma effect_keeps:
  assumes "\<And>w. g (snd (act w)) = g w" and "\<And>w cs. g (w\<lparr>calls := cs\<rparr>) = g w"
  shows "g (snd (effect c act w)) = g w"
  using assms(1) [of "w\<lparr>calls := calls w @ [c]\<rparr>"] assms(2)
  by (auto simp: effect_def Let_def split: option.splits prod.splits)

lemma andthen_keeps:
  assumes "\<And>w. g (snd (m w)) = g w" and "\<And>a w. g (snd (f a w)) = g w"
  shows "g (snd (andthen m f w)) = g w"
  using assms(1) [of w] assms(2)
  by (auto simp: andthen_def split: prod.splits sum.splits)

lemma ret_keeps: "g (snd (ret a w)) = g w"
  by (simp add: ret_def)

lemma sheet_files_list: "sheet (snd (files_list q w)) = sheet w"
  unfolding files_list_def by (rule effect_keeps) simp_all

lemma sheet_files_delete: "sheet (snd (files_delete i w)) = sheet w"
  unfolding files_delete_def by (rule effect_keeps) simp_all

lemma sheet_files_create: "sheet (snd (files_create n m ps c w)) = sheet w"
  unfolding files_create_def by (rule effect_keeps) simp_all

lemma sheet_temp: "sheet (snd (effect c (\<lambda>w. ((), w)) w)) = sheet w"
  by (rule effect_keeps) simp_all

lemma sheet_get_drive_service: "sheet (snd (get_drive_service w)) = sheet w"
  unfolding get_drive_service_def by (rule effect_keeps) simp_all

lemma sheet_resolve_folder: "sheet (snd (resolve_folder n w)) = sheet w"
  unfolding resolve_folder_def find_folder_def create_folder_def
  by (intro andthen_keeps) (auto simp: sheet_files_list sheet_files_create ret_keeps split: option.splits)

lemma sheet_upload_file_to_drive: "sheet (snd (upload_file_to_drive fs i n w)) = sheet w"
  unfolding upload_file_to_drive_def find_file_in_folder_def
  by (intro andthen_keeps)
     (auto simp: sheet_files_list sheet_files_create sheet_files_delete sheet_temp ret_keeps
        split: option.splits)

lemma sheet_upload_slots: "sheet (snd (upload_slots sub fn fid ks links w)) = sheet w"
proof (induction ks arbitrary: links w)
  case Nil
  then show ?case by (simp add: ret_keeps)
next
  case (Cons k ks)
  show ?case
    by (auto simp: Cons.IH sheet_upload_file_to_drive split: option.splits
        intro!: andthen_keeps [where g = sheet])
qed

lemma upload_slots_other:
  "upload_slots sub fn fid ks links w = (Inr links', w') \<Longrightarrow> k \<notin> set ks
     \<Longrightarrow> map_of links' k = map_of links k"
proof (induction ks arbitrary: links w)
  case Nil
  then show ?case by (simp add: ret_def)
next
  case (Cons k' ks)
  from Cons.prems(2) have ne: "k \<noteq> k'" and nin: "k \<notin> set ks" by auto
  from Cons.prems(1) obtain v w1 where
    rest: "upload_slots sub fn fid ks (AList.update k' v links) w1 = (Inr links', w')"
    by (auto simp: andthen_Inr_iff split: option.splits if_splits)
  from Cons.IH [OF rest nin] ne show ?case
    by (simp add: update_conv')
qed

lemma upload_slots_absent:
  "upload_slots sub fn fid ks links w = (Inr links', w') \<Longrightarrow> k \<in> set ks
     \<Longrightarrow> \<not> file_truthy (files_of sub k) \<Longrightarrow> map_of links' k = Some []"
proof (induction ks arbitrary: links w)
  case Nil
  then show ?case by simp
next
  case (Cons k' ks)
  show ?case
  proof (cases "k \<in> set ks")
    case True
    from Cons.prems(1) obtain v w1 where
      rest: "upload_slots sub fn fid ks (AList.update k' v links) w1 = (Inr links', w')"
      by (auto simp: andthen_Inr_iff split: option.splits if_splits)
    from Cons.IH [OF rest True Cons.prems(3)] show ?thesis .
  next
    case False
    with Cons.prems(2) have eq: "k' = k" by simp
    from Cons.prems(1) Cons.prems(3) eq have
      rest: "upload_slots sub fn fid ks (AList.update k [] links) w = (Inr links', w')"
      by (auto simp: file_truthy_def split: option.splits if_splits)
    from upload_slots_other [OF rest False] show ?thesis
      by (simp add: update_conv')
  qed
qed

lemma upload_slots_keys:
  "upload_slots sub fn fid ks links w = (Inr links', w') \<Longrightarrow> distinct ks
     \<Longrightarrow> set ks \<inter> set (map fst links) = {} \<Longrightarrow> map fst links' = map fst links @ ks"
proof (induction ks arbitrary: links w)
  case Nil
  then show ?case by (simp add: ret_def)
next
  case (Cons k' ks)
  from Cons.prems(1) obtain v w1 where
    rest: "upload_slots sub fn fid ks (AList.update k' v links) w1 = (Inr links', w')"
    by (auto simp: andthen_Inr_iff split: option.splits if_splits)
  from Cons.prems(2,3) have k': "k' \<notin> set (map fst links)" and d: "distinct ks"
    and dj: "set ks \<inter> set (map fst (AList.update k' v links)) = {}"
    by (auto simp: update_keys)
  from Cons.IH [OF rest d dj] k' show ?case
    by (simp add: update_keys)
qed

lemma getitem_Inr_iff: "getitem d k w = (Inr v, w') \<longleftrightarrow> map_of d k = Some v \<and> w' = w"
  by (auto simp: getitem_def ret_def raise_def split: option.splits)

lemma write_row_success:
  assumes "write_row sub links w = (Inr u, w')"
  shows "\<exists>l0 l1 l2 l3 l4.
     map_of links ''nationalID'' = Some l0 \<and> map_of links ''transcript1'' = Some l1
     \<and> map_of links ''transcript2'' = Some l2 \<and> map_of links ''transcript3'' = Some l3
     \<and> map_of links ''transcript4'' = Some l4
     \<and> entries w' = entries w
     \<and> sheet w' = sheet w @
          [[dict_get (fields_of sub) ''firstName'' [], dict_get (fields_of sub) ''middleName'' [],
           dict_get (fields_of sub) ''lastName'' [], dict_get (fields_of sub) ''additionalName'' [],
           dict_get (fields_of sub) ''studentType'' [], dict_get (fields_of sub) ''degreeLevel'' [],
           dict_get (fields_of sub) ''gender'' [], dict_get (fields_of sub) ''birthDate'' [],
           dict_get (fields_of sub) ''personalEmail'' [], dict_get (fields_of sub) ''notes'' [],
           l0, dict_get (fields_of sub) ''nationalCountry'' [],
           l1, dict_get (fields_of sub) ''t1Country'' [],
           l2, dict_get (fields_of sub) ''t2Country'' [],
           l3, dict_get (fields_of sub) ''t3Country'' [],
           l4, dict_get (fields_of sub) ''t4Country'' [],
           dict_get (fields_of sub) ''termsConditions'' [],
           utcnow w]]"
  using assms
  unfolding write_row_def get_sheets_service_def values_append_def
  by (auto simp: andthen_Inr_iff getitem_Inr_iff effect_Inr_iff)

lemma handle_submit_200:
  assumes "handle_submit sub w = (r, w')" and "status r = 200"
  shows "missing_fields sub = [] \<and> (\<exists>links. r = \<lparr>status = 200, body = Success links\<rparr>
            \<and> submit_body sub w = (Inr links, w'))"
  using assms
  by (auto simp: handle_submit_def split: if_splits prod.splits sum.splits)

lemma submit_body_success:
  assumes "submit_body sub w = (Inr links, w')"
  shows "\<exists>l0 l1 l2 l3 l4.
     map fst links = slots
     \<and> (\<forall>k\<in>set slots. \<not> file_truthy (files_of sub k) \<longrightarrow> map_of links k = Some [])
     \<and> map_of links ''nationalID'' = Some l0 \<and> map_of links ''transcript1'' = Some l1
     \<and> map_of links ''transcript2'' = Some l2 \<and> map_of links ''transcript3'' = Some l3
     \<and> map_of links ''transcript4'' = Some l4
     \<and> sheet w' = sheet w @
          [[dict_get (fields_of sub) ''firstName'' [], dict_get (fields_of sub) ''middleName'' [],
           dict_get (fields_of sub) ''lastName'' [], dict_get (fields_of sub) ''additionalName'' [],
           dict_get (fields_of sub) ''studentType'' [], dict_get (fields_of sub) ''degreeLevel'' [],
           dict_get (fields_of sub) ''gender'' [], dict_get (fields_of sub) ''birthDate'' [],
           dict_get (fields_of sub) ''personalEmail'' [], dict_get (fields_of sub) ''notes'' [],
           l0, dict_get (fields_of sub) ''nationalCountry'' [],
           l1, dict_get (fields_of sub) ''t1Country'' [],
           l2, dict_get (fields_of sub) ''t2Country'' [],
           l3, dict_get (fields_of sub) ''t3Country'' [],
           l4, dict_get (fields_of sub) ''t4Country'' [],
           dict_get (fields_of sub) ''termsConditions'' [],
           utcnow w]]"
proof -
  from assms obtain u1 w1 fid w2 w3 u4 where
    s1: "get_drive_service w = (Inr u1, w1)"
    and s2: "resolve_folder (make_folder_name (fields_of sub)) w1 = (Inr fid, w2)"
    and s3: "upload_slots sub (make_folder_name (fields_of sub)) fid slots [] w2 = (Inr links, w3)"
    and s4: "write_row sub links w3 = (Inr u4, w')"
    by (auto simp: submit_body_def andthen_Inr_iff ret_def)
  have sh: "sheet w3 = sheet w"
    using sheet_get_drive_service [of w] sheet_resolve_folder [of "make_folder_name (fields_of sub)" w1]
      sheet_upload_slots [of sub "make_folder_name (fields_of sub)" fid slots "[]" w2] s1 s2 s3
    by simp
  have ut: "utcnow w3 = utcnow w"
    using traced_get_drive_service [OF s1] traced_resolve_folder [OF s2] traced_upload_slots [OF s3]
    by (simp add: traced_def)
  have keys: "map fst links = slots"
    using upload_slots_keys [OF s3] by (simp add: slots_def)
  have absent: "\<forall>k\<in>set slots. \<not> file_truthy (files_of sub k) \<longrightarrow> map_of links k = Some []"
    using upload_slots_absent [OF s3] by blast
  from write_row_success [OF s4] keys absent sh ut show ?thesis
    by auto
qed
subsection \<open>Reading the query texts\<close>

lemma read_literal_plain: "plain n \<Longrightarrow> read_literal (n @ CHR 0x27 # rest) = Some (n, rest)"
  by (induction n) (auto simp: plain_def)

lemma strip_prefix_append: "strip_prefix p (p @ s) = Some s"
  by (induction p) auto

lemma read_file_query:
  assumes "plain n" and "plain fid"
  shows "read_query (file_query fid n) = Some (n, None, fid)"
proof -
  have 1: "read_literal (n @ CHR 0x27 # rest) = Some (n, rest)" for rest
    using assms(1) by (rule read_literal_plain)
  have 2: "read_literal (fid @ CHR 0x27 # rest) = Some (fid, rest)" for rest
    using assms(2) by (rule read_literal_plain)
  show ?thesis
    by (simp add: read_query_def read_parent_def file_query_def sq_def 1 2)
qed

lemma read_folder_query:
  assumes "plain key"
  shows "read_query (folder_query key) = Some (key, Some FOLDER_MIME, BASE_DRIVE_FOLDER_ID)"
proof -
  have 1: "read_literal (key @ CHR 0x27 # rest) = Some (key, rest)" for rest
    using assms by (rule read_literal_plain)
  show ?thesis
    by (simp add: read_query_def read_parent_def folder_query_def sq_def 1 FOLDER_MIME_def
        BASE_DRIVE_FOLDER_ID_def)
qed

lemma lookup_file:
  "plain n \<Longrightarrow> plain fid \<Longrightarrow>
     lookup w (file_query fid n) = map eid (filter (matches n None fid) (entries w))"
  by (simp add: lookup_def read_file_query)

lemma lookup_folder:
  "plain key \<Longrightarrow> lookup w (folder_query key) = folder_ids (entries w) key"
  by (simp add: lookup_def read_folder_query folder_ids_def)



lemma plain_root: "plain BASE_DRIVE_FOLDER_ID"
  by (simp add: plain_def BASE_DRIVE_FOLDER_ID_def)

subsection \<open>The example request\<close>

lemmas run_defs =
  handle_submit_def missing_fields_def required_def str_truthy_def
  file_truthy_def sub_ok_def w0_def submit_body_def andthen_def effect_def ret_def
  get_drive_service_def get_sheets_service_def resolve_folder_def find_folder_def
  create_folder_def files_list_def files_create_def files_delete_def values_append_def
  find_file_in_folder_def upload_file_to_drive_def first_id_def matches_def fresh_id_def
  make_folder_name_def dict_get_def replace_char_def slots_def drive_filename_of_def
  splitext_def write_row_def getitem_def FOLDER_MIME_def BASE_DRIVE_FOLDER_ID_def Let_def
  lookup_file lookup_folder folder_ids_def plain_def

lemmas read_defs =
  read_query_def read_parent_def folder_query_def file_query_def sq_def lookup_def

lemma run_ok: "handle_submit sub_ok w0 = (r_ok, w_ok)"
  by (simp add: run_defs r_ok_def w_ok_def row_ok_def entries_ok_def calls_ok_def)

subsection \<open>Validation\<close>

lemma missing_fields_iff:
  "k \<in> set (missing_fields sub) \<longleftrightarrow>
     (k \<in> set required
        \<and> (fields_of sub k = None \<or> fields_of sub k = Some [])
        \<and> (files_of sub k = None \<or> (\<exists>f. files_of sub k = Some f \<and> filename f = [])))
     \<or> (k = ''termsConditions'' \<and> fields_of sub ''termsConditions'' \<noteq> Some ''true'')"
  by (auto simp: missing_fields_def str_truthy_def file_truthy_def split: option.splits)

lemma distinct_required: "distinct required"
  by (simp add: required_def)

lemma terms_not_required: "''termsConditions'' \<notin> set required"
  by (simp add: required_def)

lemma distinct_missing_fields: "distinct (missing_fields sub)"
  using distinct_required terms_not_required by (simp add: missing_fields_def)

lemma spec_missing_subset: "set (spec_missing sub) \<subseteq> set (missing_fields sub)"
  by (auto simp: spec_missing_def missing_fields_def str_truthy_def file_truthy_def)

lemma handle_submit_400:
  "missing_fields sub \<noteq> [] \<Longrightarrow>
     handle_submit sub w =
       (\<lparr>status = 400,
         body = Failure (''Missing required fields: '' @ py_repr_list (missing_fields sub))\<rparr>, w)"
  by (simp add: handle_submit_def)

text \<open>
  C1, as the code has it. A submission in which a required field is present neither as a
  form field nor as a file slot, or whose termsConditions is not literally \<^verbatim>\<open>true\<close>,
  is answered with status 400 and the world is left as it was: no call is made, the store
  and the sheet are untouched. The message lists, each once, the required fields that have
  neither a non-empty form value nor an upload with a non-empty filename, and
  termsConditions when it is not literally \<^verbatim>\<open>true\<close>; the fields missing in the
  specification's sense are among them.
\<close>

theorem validation_rejects:
  assumes "(\<exists>k\<in>set required. fields_of sub k = None \<and> files_of sub k = None)
           \<or> fields_of sub ''termsConditions'' \<noteq> Some ''true''"
  shows "handle_submit sub w =
           (\<lparr>status = 400,
             body = Failure (''Missing required fields: '' @ py_repr_list (missing_fields sub))\<rparr>, w)
         \<and> distinct (missing_fields sub)
         \<and> (\<forall>k. k \<in> set (missing_fields sub) \<longleftrightarrow>
               (k \<in> set required
                  \<and> (fields_of sub k = None \<or> fields_of sub k = Some [])
                  \<and> (files_of sub k = None \<or> (\<exists>f. files_of sub k = Some f \<and> filename f = [])))
               \<or> (k = ''termsConditions'' \<and> fields_of sub ''termsConditions'' \<noteq> Some ''true''))
         \<and> set (spec_missing sub) \<subseteq> set (missing_fields sub)"
proof -
  from assms have "\<exists>k. k \<in> set (missing_fields sub)"
    unfolding missing_fields_iff by blast
  then have "missing_fields sub \<noteq> []" by auto
  from handle_submit_400 [OF this] distinct_missing_fields spec_missing_subset missing_fields_iff
  show ?thesis by blast
qed

theorem validation_rejects_witness:
  "fields_of sub_blank ''lastName'' = None \<and> files_of sub_blank ''lastName'' = None
   \<and> ''lastName'' \<in> set required
   \<and> handle_submit sub_blank w0 =
       (\<lparr>status = 400,
         body = Failure ''Missing required fields: ['firstName', 'lastName']''\<rparr>, w0)"
proof -
  have a: "fields_of sub_blank ''lastName'' = None \<and> files_of sub_blank ''lastName'' = None"
    by (simp add: sub_blank_def sub_ok_def)
  have b: "''lastName'' \<in> set required" by (simp add: required_def)
  have m: "missing_fields sub_blank = [''firstName'', ''lastName'']"
    by (simp add: missing_fields_def required_def str_truthy_def file_truthy_def sub_blank_def
        sub_ok_def)
  from a b have "(\<exists>k\<in>set required. fields_of sub_blank k = None \<and> files_of sub_blank k = None)
           \<or> fields_of sub_blank ''termsConditions'' \<noteq> Some ''true''"
    by blast
  from validation_rejects [OF this, of w0] a b show ?thesis
    by (simp add: m py_repr_list_def py_repr_str_def)
qed

text \<open>
  The message does not list exactly the fields that are present neither as a form field
  nor as a file slot: here the last name is the only such field, and the message lists the
  first name too, which is present as a form field, with the empty string.
\<close>

theorem validation_lists_blank_field:
  "fields_of sub_blank ''firstName'' = Some []
   \<and> spec_missing sub_blank = [''lastName'']
   \<and> body (fst (handle_submit sub_blank w0))
       = Failure ''Missing required fields: ['firstName', 'lastName']''
   \<and> body (fst (handle_submit sub_blank w0))
       \<noteq> Failure (''Missing required fields: '' @ py_repr_list (spec_missing sub_blank))"
  by (simp add: handle_submit_def missing_fields_def spec_missing_def required_def
      str_truthy_def file_truthy_def sub_blank_def sub_ok_def py_repr_list_def py_repr_str_def)

text \<open>
  C9. A required field whose form value is the empty string, and for which there is no
  file slot, is in the list of missing fields, and the request is answered with status 400
  and that list.
\<close>

theorem blank_required_field_is_missing:
  assumes "k \<in> set required" and "fields_of sub k = Some []" and "files_of sub k = None"
  shows "k \<in> set (missing_fields sub)
         \<and> handle_submit sub w =
             (\<lparr>status = 400,
               body = Failure (''Missing required fields: '' @ py_repr_list (missing_fields sub))\<rparr>,
              w)"
proof -
  from assms have k: "k \<in> set (missing_fields sub)"
    unfolding missing_fields_iff by blast
  then have "missing_fields sub \<noteq> []" by auto
  from handle_submit_400 [OF this] k show ?thesis by blast
qed

theorem blank_required_field_is_missing_witness:
  "''firstName'' \<in> set required \<and> fields_of sub_blank_first ''firstName'' = Some []
   \<and> files_of sub_blank_first ''firstName'' = None
   \<and> missing_fields sub_blank_first = [''firstName'']
   \<and> handle_submit sub_blank_first w0 =
       (\<lparr>status = 400, body = Failure ''Missing required fields: ['firstName']''\<rparr>, w0)"
proof -
  have a: "''firstName'' \<in> set required" by (simp add: required_def)
  have b: "fields_of sub_blank_first ''firstName'' = Some []"
    and c: "files_of sub_blank_first ''firstName'' = None"
    by (simp_all add: sub_blank_first_def sub_ok_def)
  have m: "missing_fields sub_blank_first = [''firstName'']"
    by (simp add: missing_fields_def required_def str_truthy_def file_truthy_def
        sub_blank_first_def sub_ok_def)
  from blank_required_field_is_missing [OF a b c, of w0] a b c m show ?thesis
    by (simp add: py_repr_list_def py_repr_str_def)
qed

subsection \<open>The links and the row of a successful submission\<close>

lemma terms_accepted:
  "missing_fields sub = [] \<Longrightarrow> fields_of sub ''termsConditions'' = Some ''true''"
  by (simp add: missing_fields_def split: if_splits)

lemma handle_submit_success:
  assumes "handle_submit sub w = (r, w')" and "status r = 200"
  shows "\<exists>links l0 l1 l2 l3 l4.
     r = \<lparr>status = 200, body = Success links\<rparr>
     \<and> fields_of sub ''termsConditions'' = Some ''true''
     \<and> map fst links = slots
     \<and> (\<forall>k\<in>set slots. \<not> file_truthy (files_of sub k) \<longrightarrow> map_of links k = Some [])
     \<and> map_of links ''nationalID'' = Some l0 \<and> map_of links ''transcript1'' = Some l1
     \<and> map_of links ''transcript2'' = Some l2 \<and> map_of links ''transcript3'' = Some l3
     \<and> map_of links ''transcript4'' = Some l4
     \<and> sheet w' = sheet w @
          [[dict_get (fields_of sub) ''firstName'' [], dict_get (fields_of sub) ''middleName'' [],
           dict_get (fields_of sub) ''lastName'' [], dict_get (fields_of sub) ''additionalName'' [],
           dict_get (fields_of sub) ''studentType'' [], dict_get (fields_of sub) ''degreeLevel'' [],
           dict_get (fields_of sub) ''gender'' [], dict_get (fields_of sub) ''birthDate'' [],
           dict_get (fields_of sub) ''personalEmail'' [], dict_get (fields_of sub) ''notes'' [],
           l0, dict_get (fields_of sub) ''nationalCountry'' [],
           l1, dict_get (fields_of sub) ''t1Country'' [],
           l2, dict_get (fields_of sub) ''t2Country'' [],
           l3, dict_get (fields_of sub) ''t3Country'' [],
           l4, dict_get (fields_of sub) ''t4Country'' [],
           dict_get (fields_of sub) ''termsConditions'' [],
           utcnow w]]"
proof -
  from handle_submit_200 [OF assms] obtain links where
    m: "missing_fields sub = []" and r: "r = \<lparr>status = 200, body = Success links\<rparr>"
    and b: "submit_body sub w = (Inr links, w')"
    by blast
  from submit_body_success [OF b] terms_accepted [OF m] r show ?thesis
    by blast
qed

text \<open>
  C6. A successful submission appends exactly one row to the sheet. The row has 22 cells,
  in the order firstName, middleName, lastName, additionalName, studentType, degreeLevel,
  gender, birthDate, personalEmail, notes, nationalID link, nationalCountry, transcript1
  link, t1Country, transcript2 link, t2Country, transcript3 link, t3Country, transcript4
  link, t4Country, termsConditions, timestamp; the cell of a field that the form does not
  hold is the empty string.
\<close>

theorem submit_appends_one_row:
  assumes "handle_submit sub w = (r, w')" and "status r = 200"
  shows "\<exists>links row.
     body r = Success links \<and> sheet w' = sheet w @ [row] \<and> length row = 22
     \<and> row =
          [dict_get (fields_of sub) ''firstName'' [], dict_get (fields_of sub) ''middleName'' [],
           dict_get (fields_of sub) ''lastName'' [], dict_get (fields_of sub) ''additionalName'' [],
           dict_get (fields_of sub) ''studentType'' [], dict_get (fields_of sub) ''degreeLevel'' [],
           dict_get (fields_of sub) ''gender'' [], dict_get (fields_of sub) ''birthDate'' [],
           dict_get (fields_of sub) ''personalEmail'' [], dict_get (fields_of sub) ''notes'' [],
           dict_get (map_of links) ''nationalID'' [],
           dict_get (fields_of sub) ''nationalCountry'' [],
           dict_get (map_of links) ''transcript1'' [], dict_get (fields_of sub) ''t1Country'' [],
           dict_get (map_of links) ''transcript2'' [], dict_get (fields_of sub) ''t2Country'' [],
           dict_get (map_of links) ''transcript3'' [], dict_get (fields_of sub) ''t3Country'' [],
           dict_get (map_of links) ''transcript4'' [], dict_get (fields_of sub) ''t4Country'' [],
           dict_get (fields_of sub) ''termsConditions'' [],
           utcnow w]
     \<and> (\<forall>k. fields_of sub k = None \<longrightarrow> dict_get (fields_of sub) k [] = [])"
proof -
  from handle_submit_success [OF assms] obtain links l0 l1 l2 l3 l4 where
    "r = \<lparr>status = 200, body = Success links\<rparr>"
    "map_of links ''nationalID'' = Some l0" "map_of links ''transcript1'' = Some l1"
    "map_of links ''transcript2'' = Some l2" "map_of links ''transcript3'' = Some l3"
    "map_of links ''transcript4'' = Some l4"
    "sheet w' = sheet w @
          [[dict_get (fields_of sub) ''firstName'' [], dict_get (fields_of sub) ''middleName'' [],
           dict_get (fields_of sub) ''lastName'' [], dict_get (fields_of sub) ''additionalName'' [],
           dict_get (fields_of sub) ''studentType'' [], dict_get (fields_of sub) ''degreeLevel'' [],
           dict_get (fields_of sub) ''gender'' [], dict_get (fields_of sub) ''birthDate'' [],
           dict_get (fields_of sub) ''personalEmail'' [], dict_get (fields_of sub) ''notes'' [],
           l0, dict_get (fields_of sub) ''nationalCountry'' [],
           l1, dict_get (fields_of sub) ''t1Country'' [],
           l2, dict_get (fields_of sub) ''t2Country'' [],
           l3, dict_get (fields_of sub) ''t3Country'' [],
           l4, dict_get (fields_of sub) ''t4Country'' [],
           dict_get (fields_of sub) ''termsConditions'' [],
           utcnow w]]"
    by blast
  then show ?thesis
    by (simp add: dict_get_def)
qed

theorem submit_appends_one_row_witness:
  "handle_submit sub_ok w0 = (r_ok, w_ok) \<and> status r_ok = 200
   \<and> sheet w_ok = sheet w0 @ [row_ok] \<and> length row_ok = 22
   \<and> fields_of sub_ok ''middleName'' = None \<and> row_ok ! 1 = []"
proof -
  have st: "status r_ok = 200" by (simp add: r_ok_def)
  from submit_appends_one_row [OF run_ok st] run_ok st show ?thesis
    by (simp add: w_ok_def w0_def row_ok_def sub_ok_def)
qed

text \<open>
  C7. The links of a successful submission have exactly the five slot keys; a slot for
  which the request holds no file has the empty string as its link, in the response and
  in its cell of the appended row.
\<close>

theorem absent_slot_has_empty_link:
  assumes "handle_submit sub w = (r, w')" and "status r = 200"
  shows "\<exists>links row.
     body r = Success links \<and> sheet w' = sheet w @ [row]
     \<and> map fst links = slots
     \<and> (\<forall>k\<in>set slots. files_of sub k = None \<longrightarrow> map_of links k = Some [])
     \<and> (files_of sub ''nationalID'' = None \<longrightarrow> row ! 10 = [])
     \<and> (files_of sub ''transcript1'' = None \<longrightarrow> row ! 12 = [])
     \<and> (files_of sub ''transcript2'' = None \<longrightarrow> row ! 14 = [])
     \<and> (files_of sub ''transcript3'' = None \<longrightarrow> row ! 16 = [])
     \<and> (files_of sub ''transcript4'' = None \<longrightarrow> row ! 18 = [])"
proof -
  from handle_submit_success [OF assms] obtain links l0 l1 l2 l3 l4 row where
    r: "r = \<lparr>status = 200, body = Success links\<rparr>"
    and keys: "map fst links = slots"
    and ab: "\<forall>k\<in>set slots. \<not> file_truthy (files_of sub k) \<longrightarrow> map_of links k = Some []"
    and l: "map_of links ''nationalID'' = Some l0" "map_of links ''transcript1'' = Some l1"
    "map_of links ''transcript2'' = Some l2" "map_of links ''transcript3'' = Some l3"
    "map_of links ''transcript4'' = Some l4"
    and row: "row =
          [dict_get (fields_of sub) ''firstName'' [], dict_get (fields_of sub) ''middleName'' [],
           dict_get (fields_of sub) ''lastName'' [], dict_get (fields_of sub) ''additionalName'' [],
           dict_get (fields_of sub) ''studentType'' [], dict_get (fields_of sub) ''degreeLevel'' [],
           dict_get (fields_of sub) ''gender'' [], dict_get (fields_of sub) ''birthDate'' [],
           dict_get (fields_of sub) ''personalEmail'' [], dict_get (fields_of sub) ''notes'' [],
           l0, dict_get (fields_of sub) ''nationalCountry'' [],
           l1, dict_get (fields_of sub) ''t1Country'' [],
           l2, dict_get (fields_of sub) ''t2Country'' [],
           l3, dict_get (fields_of sub) ''t3Country'' [],
           l4, dict_get (fields_of sub) ''t4Country'' [],
           dict_get (fields_of sub) ''termsConditions'' [],
           utcnow w]"
    and sh: "sheet w' = sheet w @ [row]"
    by blast
  have ab': "\<forall>k\<in>set slots. files_of sub k = None \<longrightarrow> map_of links k = Some []"
    using ab by (simp add: file_truthy_def)
  have cells: "row ! 10 = l0" "row ! 12 = l1" "row ! 14 = l2" "row ! 16 = l3" "row ! 18 = l4"
    by (simp_all add: row)
  have "files_of sub ''nationalID'' = None \<longrightarrow> l0 = []"
    "files_of sub ''transcript1'' = None \<longrightarrow> l1 = []"
    "files_of sub ''transcript2'' = None \<longrightarrow> l2 = []"
    "files_of sub ''transcript3'' = None \<longrightarrow> l3 = []"
    "files_of sub ''transcript4'' = None \<longrightarrow> l4 = []"
    using ab' l by (auto simp: slots_def)
  with r sh keys ab' cells show ?thesis
    by auto
qed

theorem absent_slot_has_empty_link_witness:
  "handle_submit sub_ok w0 = (r_ok, w_ok) \<and> status r_ok = 200
   \<and> files_of sub_ok ''transcript2'' = None
   \<and> r_ok = \<lparr>status = 200,
              body = Success
                [(''nationalID'', ''https://drive.google.com/file/d/ii/view?usp=sharing''),
                 (''transcript1'', ''https://drive.google.com/file/d/iii/view?usp=sharing''),
                 (''transcript2'', []), (''transcript3'', []), (''transcript4'', [])]\<rparr>
   \<and> last (sheet w_ok) ! 14 = []"
proof -
  have st: "status r_ok = 200" by (simp add: r_ok_def)
  from absent_slot_has_empty_link [OF run_ok st] run_ok st show ?thesis
    by (simp add: w_ok_def r_ok_def row_ok_def sub_ok_def)
qed

text \<open>
  C10. On a successful submission the cells 11, 13, 15, 17 and 19 of the appended row
  (indices 10, 12, 14, 16, 18 from zero) are the links of the five slots in the response,
  and the cell of termsConditions (the 21st) is the string \<^verbatim>\<open>true\<close>.
\<close>

theorem row_links_are_response_links:
  assumes "handle_submit sub w = (r, w')" and "status r = 200"
  shows "\<exists>links row.
     body r = Success links \<and> sheet w' = sheet w @ [row] \<and> length row = 22
     \<and> map_of links ''nationalID'' = Some (row ! 10)
     \<and> map_of links ''transcript1'' = Some (row ! 12)
     \<and> map_of links ''transcript2'' = Some (row ! 14)
     \<and> map_of links ''transcript3'' = Some (row ! 16)
     \<and> map_of links ''transcript4'' = Some (row ! 18)
     \<and> row ! 20 = ''true''"
proof -
  from handle_submit_success [OF assms] obtain links l0 l1 l2 l3 l4 row where
    r: "r = \<lparr>status = 200, body = Success links\<rparr>"
    and t: "fields_of sub ''termsConditions'' = Some ''true''"
    and l: "map_of links ''nationalID'' = Some l0" "map_of links ''transcript1'' = Some l1"
    "map_of links ''transcript2'' = Some l2" "map_of links ''transcript3'' = Some l3"
    "map_of links ''transcript4'' = Some l4"
    and row: "row =
          [dict_get (fields_of sub) ''firstName'' [], dict_get (fields_of sub) ''middleName'' [],
           dict_get (fields_of sub) ''lastName'' [], dict_get (fields_of sub) ''additionalName'' [],
           dict_get (fields_of sub) ''studentType'' [], dict_get (fields_of sub) ''degreeLevel'' [],
           dict_get (fields_of sub) ''gender'' [], dict_get (fields_of sub) ''birthDate'' [],
           dict_get (fields_of sub) ''personalEmail'' [], dict_get (fields_of sub) ''notes'' [],
           l0, dict_get (fields_of sub) ''nationalCountry'' [],
           l1, dict_get (fields_of sub) ''t1Country'' [],
           l2, dict_get (fields_of sub) ''t2Country'' [],
           l3, dict_get (fields_of sub) ''t3Country'' [],
           l4, dict_get (fields_of sub) ''t4Country'' [],
           dict_get (fields_of sub) ''termsConditions'' [],
           utcnow w]"
    and sh: "sheet w' = sheet w @ [row]"
    by blast
  have cells: "row ! 10 = l0" "row ! 12 = l1" "row ! 14 = l2" "row ! 16 = l3" "row ! 18 = l4"
    "row ! 20 = ''true''" "length row = 22"
    using t by (simp_all add: row dict_get_def)
  with r sh l show ?thesis
    by auto
qed

theorem row_links_are_response_links_witness:
  "handle_submit sub_ok w0 = (r_ok, w_ok) \<and> status r_ok = 200
   \<and> body r_ok = Success
        [(''nationalID'', ''https://drive.google.com/file/d/ii/view?usp=sharing''),
         (''transcript1'', ''https://drive.google.com/file/d/iii/view?usp=sharing''),
         (''transcript2'', []), (''transcript3'', []), (''transcript4'', [])]
   \<and> last (sheet w_ok) ! 10 = ''https://drive.google.com/file/d/ii/view?usp=sharing''
   \<and> last (sheet w_ok) ! 12 = ''https://drive.google.com/file/d/iii/view?usp=sharing''
   \<and> last (sheet w_ok) ! 20 = ''true''"
proof -
  have st: "status r_ok = 200" by (simp add: r_ok_def)
  from row_links_are_response_links [OF run_ok st] run_ok st show ?thesis
    by (simp add: w_ok_def r_ok_def row_ok_def)
qed

subsection \<open>The three results of the handler\<close>

lemma traced_andthen_from:
  assumes "\<And>r w'. m w = (r, w') \<Longrightarrow> traced w r w'"
    and "\<And>a w1 r w'. m w = (Inr a, w1) \<Longrightarrow> f a w1 = (r, w') \<Longrightarrow> traced w1 r w'"
    and "andthen m f w = (r, w')"
  shows "traced w r w'"
proof (cases "m w")
  case (Pair r1 w1)
  show ?thesis
  proof (cases r1)
    case (Inl e)
    with Pair assms(3) have "r = Inl e" "w' = w1" by (simp_all add: andthen_def)
    with Pair Inl assms(1) [of "Inl e" w1] show ?thesis
      by (simp add: traced_def completed_def)
  next
    case (Inr a)
    with Pair assms(3) have fa: "f a w1 = (r, w')" by (simp add: andthen_def)
    from Pair Inr have mw: "m w = (Inr a, w1)" by simp
    from traced_trans [OF assms(1) [OF mw] assms(2) [OF mw fa]]
    show ?thesis .
  qed
qed

lemma andthen_ret: "andthen (ret a) f = f a"
  by (rule ext) (simp add: andthen_def ret_def)

lemma getitem_present: "map_of d k = Some v \<Longrightarrow> getitem d k = ret v"
  by (simp add: getitem_def)

lemma slots_present:
  assumes "map fst links = slots"
  shows "\<exists>l0 l1 l2 l3 l4.
     map_of links ''nationalID'' = Some l0 \<and> map_of links ''transcript1'' = Some l1
     \<and> map_of links ''transcript2'' = Some l2 \<and> map_of links ''transcript3'' = Some l3
     \<and> map_of links ''transcript4'' = Some l4"
proof -
  have "k \<in> set slots \<Longrightarrow> \<exists>v. map_of links k = Some v" for k
    using assms by (metis list.set_map map_of_eq_None_iff not_None_eq)
  then show ?thesis
    by (simp add: slots_def)
qed

lemma traced_write_row:
  assumes "map fst links = slots" and "write_row sub links w = (r, w')"
  shows "traced w r w'"
proof -
  from slots_present [OF assms(1)] obtain l0 l1 l2 l3 l4 where
    "getitem links ''nationalID'' = ret l0" "getitem links ''transcript1'' = ret l1"
    "getitem links ''transcript2'' = ret l2" "getitem links ''transcript3'' = ret l3"
    "getitem links ''transcript4'' = ret l4"
    by (auto simp: getitem_present)
  with assms(2) show ?thesis
    unfolding write_row_def
    by (simp add: andthen_ret)
       (erule traced_andthen [rotated 2],
        auto intro: traced_get_sheets_service traced_values_append)
qed

lemma traced_submit_body: "submit_body sub w = (r, w') \<Longrightarrow> traced w r w'"
  unfolding submit_body_def
  apply (erule traced_andthen [rotated 2])
   apply (erule traced_get_drive_service)
  apply (erule traced_andthen [rotated 2])
   apply (erule traced_resolve_folder)
  apply (erule traced_andthen_from [rotated 2])
   apply (erule traced_upload_slots)
  apply (erule traced_andthen [rotated 2])
   apply (rule traced_write_row)
    apply (drule upload_slots_keys)
      apply (simp add: slots_def)
     apply simp
    apply simp
   apply assumption
  apply (erule traced_ret')
  done

text \<open>
  C8. The handler has three results. Status 200 with the links, when validation passes
  and no call fails. Status 400 with the list of missing fields, when validation fails;
  the world is then untouched. Status 500 otherwise: a call failed, the error of the
  response is the text of that failure, and the failing call is the last call the handler
  made, so the store and the sheet are left as the calls before it made them; nothing is
  undone.
\<close>

theorem handler_result_shapes:
  assumes "handle_submit sub w = (r, w')"
  shows "(\<exists>links. r = \<lparr>status = 200, body = Success links\<rparr> \<and> missing_fields sub = []
            \<and> clean_until w (length (calls w')))
       \<or> (r = \<lparr>status = 400,
                body = Failure (''Missing required fields: '' @ py_repr_list (missing_fields sub))\<rparr>
            \<and> missing_fields sub \<noteq> [] \<and> w' = w)
       \<or> (\<exists>e. r = \<lparr>status = 500, body = Failure e\<rparr> \<and> missing_fields sub = []
            \<and> length (calls w) < length (calls w')
            \<and> faults w (length (calls w') - 1) = Some e
            \<and> clean_until w (length (calls w') - 1)
            \<and> entries w' = foldl (\<lambda>es c. store_effect c es) (entries w)
                              (butlast (new_calls w w'))
            \<and> sheet w' = foldl (\<lambda>rs c. sheet_effect c rs) (sheet w)
                            (butlast (new_calls w w')))"
proof (cases "missing_fields sub = []")
  case False
  with assms show ?thesis by (simp add: handle_submit_def)
next
  case True
  obtain x w1 where sb: "submit_body sub w = (x, w1)" by (cases "submit_body sub w")
  from traced_submit_body [OF sb] have tr: "traced w x w1" .
  show ?thesis
  proof (cases x)
    case (Inl e)
    with True sb assms have "r = \<lparr>status = 500, body = Failure e\<rparr>" "w' = w1"
      by (simp_all add: handle_submit_def)
    with tr Inl True show ?thesis
      by (simp add: traced_def completed_def)
  next
    case (Inr links)
    with True sb assms have "r = \<lparr>status = 200, body = Success links\<rparr>" "w' = w1"
      by (simp_all add: handle_submit_def)
    with tr Inr True show ?thesis
      by (simp add: traced_def)
  qed
qed

lemma run_fail: "handle_submit sub_ok w_fail = (r_fail, w_failed)"
  by (simp add: run_defs w_fail_def r_fail_def w_failed_def)

text \<open>
  A witness: the creation of the first uploaded file fails. The response is 500 with the
  text of the failure, and the folder created before stays in the store.
\<close>

theorem handler_result_shapes_witness:
  "handle_submit sub_ok w_fail = (r_fail, w_failed)
   \<and> r_fail = \<lparr>status = 500, body = Failure ''storageQuotaExceeded''\<rparr>
   \<and> faults w_fail (length (calls w_failed) - 1) = Some ''storageQuotaExceeded''
   \<and> entries w_fail = []
   \<and> map ename (entries w_failed) = [''Nelson_Denise_MBA_MSOHQ'']"
  using handler_result_shapes [OF run_fail] run_fail
  by (simp add: r_fail_def w_fail_def w_failed_def)

subsection \<open>The name of an uploaded file\<close>

lemma splitext_ext_dot: "snd (splitext p) \<noteq> [] \<Longrightarrow> CHR ''.'' \<in> set (snd (splitext p))"
  by (simp add: splitext_def Let_def split: if_splits)

lemma drive_filename_of_cases:
  "drive_filename_of sub folder k fs =
     (case fields_of sub (k @ ''Filename'') of
        None \<Rightarrow> folder @ ''-'' @ k @ snd (splitext (filename fs))
      | Some v \<Rightarrow>
          if v = [] then folder @ ''-'' @ k @ snd (splitext (filename fs))
          else if CHR ''.'' \<in> set v then v
          else v @ snd (splitext (filename fs)))"
proof -
  have fb: "(if CHR ''.'' \<notin> set (folder @ ''-'' @ k @ snd (splitext (filename fs)))
             then (folder @ ''-'' @ k @ snd (splitext (filename fs))) @ snd (splitext (filename fs))
             else folder @ ''-'' @ k @ snd (splitext (filename fs)))
          = folder @ ''-'' @ k @ snd (splitext (filename fs))"
    using splitext_ext_dot [of "filename fs"] by auto
  show ?thesis
    unfolding drive_filename_of_def Let_def
    using fb by (auto split: option.splits)
qed

lemma new_calls_trans:
  "traced w x w1 \<Longrightarrow> traced w1 r w2 \<Longrightarrow> new_calls w w2 = new_calls w w1 @ new_calls w1 w2"
  using traced_calls [of w x w1] traced_calls [of w1 r w2]
  by (simp add: new_calls_def [of w w2])

lemma upload_file_to_drive_creates:
  assumes "upload_file_to_drive fs fid n w = (Inr url, w')"
  shows "FilesCreate n (mimetype fs) [fid] (content fs) \<in> set (new_calls w w')"
  using assms
  unfolding upload_file_to_drive_def find_file_in_folder_def files_list_def files_delete_def
    files_create_def
  by (auto simp: andthen_Inr_iff effect_Inr_iff ret_def new_calls_def split: option.splits if_splits)

lemma upload_slots_creates:
  "upload_slots sub fn fid ks links w = (Inr links', w') \<Longrightarrow> k \<in> set ks
     \<Longrightarrow> files_of sub k = Some fs \<Longrightarrow> filename fs \<noteq> []
     \<Longrightarrow> FilesCreate (drive_filename_of sub fn k fs) (mimetype fs) [fid] (content fs)
           \<in> set (new_calls w w')"
proof (induction ks arbitrary: links w)
  case Nil
  then show ?case by simp
next
  case (Cons k' ks)
  show ?case
  proof (cases "file_truthy (files_of sub k')")
    case False
    with Cons.prems(3,4) have ne: "k \<noteq> k'" by (auto simp: file_truthy_def)
    from False Cons.prems(1) have
      rest: "upload_slots sub fn fid ks (AList.update k' [] links) w = (Inr links', w')"
      by (auto simp: file_truthy_def split: option.splits if_splits)
    from ne Cons.prems(2) have "k \<in> set ks" by simp
    from Cons.IH [OF rest this Cons.prems(3,4)] show ?thesis .
  next
    case True
    then obtain fs' where fs': "files_of sub k' = Some fs'" "filename fs' \<noteq> []"
      by (auto simp: file_truthy_def split: option.splits)
    with Cons.prems(1) obtain url w1 where
      up: "upload_file_to_drive fs' fid (drive_filename_of sub fn k' fs') w = (Inr url, w1)"
      and rest: "upload_slots sub fn fid ks (AList.update k' url links) w1 = (Inr links', w')"
      by (auto simp: andthen_Inr_iff)
    have nc: "new_calls w w' = new_calls w w1 @ new_calls w1 w'"
      using new_calls_trans [OF traced_upload_file_to_drive [OF up] traced_upload_slots [OF rest]] .
    show ?thesis
    proof (cases "k = k'")
      case True
      with fs' Cons.prems(3) have "fs' = fs" by simp
      with upload_file_to_drive_creates [OF up] True nc show ?thesis by simp
    next
      case False
      with Cons.prems(2) have "k \<in> set ks" by simp
      from Cons.IH [OF rest this Cons.prems(3,4)] nc show ?thesis by simp
    qed
  qed
qed

lemma handle_submit_creates:
  assumes "handle_submit sub w = (r, w')" and "status r = 200"
    and "k \<in> set slots" and "files_of sub k = Some fs" and "filename fs \<noteq> []"
  shows "\<exists>fid. FilesCreate (drive_filename_of sub (make_folder_name (fields_of sub)) k fs)
                 (mimetype fs) [fid] (content fs) \<in> set (new_calls w w')"
proof -
  from handle_submit_200 [OF assms(1,2)] obtain links where
    "submit_body sub w = (Inr links, w')" by blast
  then obtain u1 w1 fid w2 w3 u4 where
    s1: "get_drive_service w = (Inr u1, w1)"
    and s2: "resolve_folder (make_folder_name (fields_of sub)) w1 = (Inr fid, w2)"
    and s3: "upload_slots sub (make_folder_name (fields_of sub)) fid slots [] w2 = (Inr links, w3)"
    and s4: "write_row sub links w3 = (Inr u4, w')"
    by (auto simp: submit_body_def andthen_Inr_iff ret_def)
  have keys: "map fst links = slots"
    using upload_slots_keys [OF s3] by (simp add: slots_def)
  note t1 = traced_get_drive_service [OF s1]
  note t2 = traced_resolve_folder [OF s2]
  note t3 = traced_upload_slots [OF s3]
  note t4 = traced_write_row [OF keys s4]
  note t12 = traced_trans [OF t1 t2]
  note t123 = traced_trans [OF t12 t3]
  have "new_calls w w' = new_calls w w1 @ new_calls w1 w2 @ new_calls w2 w3 @ new_calls w3 w'"
    using new_calls_trans [OF t1 t2] new_calls_trans [OF t12 t3] new_calls_trans [OF t123 t4]
    by simp
  with upload_slots_creates [OF s3 assms(3,4,5)] show ?thesis
    by auto
qed

text \<open>
  C5, as the code has it. The name under which the file of a slot is stored is the
  \<^verbatim>\<open>Filename\<close> field of the slot when that field is present and not empty, with the
  extension of the uploaded file appended when the name holds no dot; when the field is
  absent or empty, it is the folder key, a hyphen, the slot and the extension of the
  uploaded file. A successful submission creates, for every slot it uploads, a file of
  that name (in the folder it resolved).
\<close>

theorem target_filename:
  "drive_filename_of sub folder k fs =
     (case fields_of sub (k @ ''Filename'') of
        None \<Rightarrow> folder @ ''-'' @ k @ snd (splitext (filename fs))
      | Some v \<Rightarrow>
          if v = [] then folder @ ''-'' @ k @ snd (splitext (filename fs))
          else if CHR ''.'' \<in> set v then v
          else v @ snd (splitext (filename fs)))
   \<and> (handle_submit sub w = (r, w') \<and> status r = 200 \<and> k \<in> set slots
        \<and> files_of sub k = Some fs \<and> filename fs \<noteq> []
      \<longrightarrow> (\<exists>fid. FilesCreate (drive_filename_of sub (make_folder_name (fields_of sub)) k fs)
                    (mimetype fs) [fid] (content fs) \<in> set (new_calls w w')))"
  using drive_filename_of_cases [of sub folder k fs] handle_submit_creates [of sub w r w' k fs]
  by blast

theorem target_filename_witness:
  "handle_submit sub_ok w0 = (r_ok, w_ok) \<and> status r_ok = 200 \<and> ''transcript1'' \<in> set slots
   \<and> files_of sub_ok ''transcript1''
       = Some \<lparr>filename = ''t1.png'', mimetype = ''image/png'', content = ''T1''\<rparr>
   \<and> fields_of sub_ok ''transcript1Filename'' = None
   \<and> drive_filename_of sub_ok (make_folder_name (fields_of sub_ok)) ''transcript1''
        \<lparr>filename = ''t1.png'', mimetype = ''image/png'', content = ''T1''\<rparr>
       = ''Nelson_Denise_MBA_MSOHQ-transcript1.png''
   \<and> FilesCreate ''Nelson_Denise_MBA_MSOHQ-transcript1.png'' ''image/png'' [''i''] ''T1''
       \<in> set (new_calls w0 w_ok)"
proof -
  have st: "status r_ok = 200" by (simp add: r_ok_def)
  from target_filename [of sub_ok "[]" "''transcript1''"
      "\<lparr>filename = ''t1.png'', mimetype = ''image/png'', content = ''T1''\<rparr>" w0 r_ok w_ok]
    run_ok st
  show ?thesis
    by (simp add: sub_ok_def slots_def drive_filename_of_def make_folder_name_def dict_get_def
        replace_char_def splitext_def Let_def new_calls_def w0_def w_ok_def calls_ok_def)
qed

text \<open>
  A \<^verbatim>\<open>Filename\<close> field that is present and empty is not used: the file is stored
  under the fallback name, not under the empty name with the extension appended.
\<close>

theorem empty_filename_field_falls_back:
  "fields_of sub_noname ''transcript1Filename'' = Some []
   \<and> files_of sub_noname ''transcript1''
       = Some \<lparr>filename = ''t1.png'', mimetype = ''image/png'', content = ''T1''\<rparr>
   \<and> snd (splitext ''t1.png'') = ''.png''
   \<and> drive_filename_of sub_noname ''Nelson_Denise_MBA_MSOHQ'' ''transcript1''
        \<lparr>filename = ''t1.png'', mimetype = ''image/png'', content = ''T1''\<rparr>
       = ''Nelson_Denise_MBA_MSOHQ-transcript1.png''
   \<and> drive_filename_of sub_noname ''Nelson_Denise_MBA_MSOHQ'' ''transcript1''
        \<lparr>filename = ''t1.png'', mimetype = ''image/png'', content = ''T1''\<rparr>
       \<noteq> [] @ snd (splitext ''t1.png'')
   \<and> status (fst (handle_submit sub_noname w0)) = 200
   \<and> map ename (entries (snd (handle_submit sub_noname w0)))
       = [''Nelson_Denise_MBA_MSOHQ'', ''Nelson_Denise_MBA_MSOHQ-nationalID.pdf'',
          ''Nelson_Denise_MBA_MSOHQ-transcript1.png'']"
proof -
  obtain r w' where run: "handle_submit sub_noname w0 = (r, w')"
    by (cases "handle_submit sub_noname w0")
  from run have "status r = 200
      \<and> map ename (entries w')
          = [''Nelson_Denise_MBA_MSOHQ'', ''Nelson_Denise_MBA_MSOHQ-nationalID.pdf'',
             ''Nelson_Denise_MBA_MSOHQ-transcript1.png'']"
    by (clarsimp simp add: run_defs sub_noname_def)
  with run show ?thesis
    by (simp add: sub_noname_def sub_ok_def drive_filename_of_def splitext_def Let_def)
qed

subsection \<open>Uploading over an existing name\<close>

































subsection \<open>Resolving the folder\<close>





















text \<open>
  With a last name that holds a backslash followed by a quote, the lookup asks for the
  key with the quote alone, never finds the folder created under the key as it is, and
  the second submission creates a second folder of the same name.
\<close>

theorem folder_key_with_quote_is_duplicated:
  "\<not> plain key_q \<and> make_folder_name (fields_of sub_qkey) = key_q
   \<and> status (fst (handle_submit sub_qkey w0)) = 200
   \<and> entries (snd (handle_submit sub_qkey w0)) = entries_q
   \<and> folder_ids entries_q key_q = [''i'']
   \<and> status (fst (handle_submit sub_qkey (w0\<lparr>entries := entries_q\<rparr>))) = 200
   \<and> folder_ids (entries (snd (handle_submit sub_qkey (w0\<lparr>entries := entries_q\<rparr>)))) key_q
       = [''i'', ''iiii'']"
proof -
  have 0: "\<not> plain key_q" "make_folder_name (fields_of sub_qkey) = key_q"
    "folder_ids entries_q key_q = [''i'']"
    by (simp_all add: plain_def key_q_def make_folder_name_def sub_qkey_def sub_ok_def
        dict_get_def replace_char_def folder_ids_def entries_q_def matches_def)
  obtain r1 w1 where run1: "handle_submit sub_qkey w0 = (r1, w1)"
    by (cases "handle_submit sub_qkey w0")
  from run1 have 1: "status r1 = 200 \<and> entries w1 = entries_q"
    by (clarsimp simp add: run_defs read_defs sub_qkey_def entries_q_def key_q_def)
  obtain r2 w2 where run2: "handle_submit sub_qkey (w0\<lparr>entries := entries_q\<rparr>) = (r2, w2)"
    by (cases "handle_submit sub_qkey (w0\<lparr>entries := entries_q\<rparr>)")
  from run2 have 2: "status r2 = 200 \<and> folder_ids (entries w2) key_q = [''i'', ''iiii'']"
    by (clarsimp simp add: run_defs read_defs sub_qkey_def entries_q_def key_q_def)
  from 0 1 2 run1 run2 show ?thesis by simp
qed


end
